theory Spec2Isabelle
  imports Complex_Main "HOL-Library.Multiset"
begin

section \<open>Errors and floating-point values\<close>

text \<open>
  The script \<^verbatim>\<open>retrain.py\<close> handles no exception, so every fault ends the run.
  A fault is a value of \<open>error\<close>, and a computation that may raise returns
  \<open>error + 'a\<close> with \<open>Inl\<close> for the fault.
\<close>

datatype error = ZeroDivisionError | RuntimeError | IndexError | ValueError | FileNotFoundError

text \<open>
  A Python float or a tensor element: a finite number, an infinity or NaN. Finite
  arithmetic is taken as exact (rounding and overflow are not modelled); the
  comparisons, the infinities and NaN follow IEEE 754, which is what Python's
  \<^verbatim>\<open><\<close> on floats does.
\<close>

datatype fl = Fin real | PInf | NInf | NaN

fun is_nan :: "fl \<Rightarrow> bool" where
  "is_nan NaN = True"
| "is_nan _ = False"

fun fl_less :: "fl \<Rightarrow> fl \<Rightarrow> bool" where
  "fl_less (Fin a) (Fin b) = (a < b)"
| "fl_less (Fin a) PInf = True"
| "fl_less NInf (Fin b) = True"
| "fl_less NInf PInf = True"
| "fl_less _ _ = False"

fun fl_le :: "fl \<Rightarrow> fl \<Rightarrow> bool" where
  "fl_le (Fin a) (Fin b) = (a \<le> b)"
| "fl_le (Fin a) PInf = True"
| "fl_le NInf (Fin b) = True"
| "fl_le NInf PInf = True"
| "fl_le PInf PInf = True"
| "fl_le NInf NInf = True"
| "fl_le _ _ = False"

fun fl_add :: "fl \<Rightarrow> fl \<Rightarrow> fl" where
  "fl_add (Fin a) (Fin b) = Fin (a + b)"
| "fl_add (Fin a) PInf = PInf"
| "fl_add (Fin a) NInf = NInf"
| "fl_add PInf (Fin b) = PInf"
| "fl_add NInf (Fin b) = NInf"
| "fl_add PInf PInf = PInf"
| "fl_add NInf NInf = NInf"
| "fl_add _ _ = NaN"

fun fl_mul :: "fl \<Rightarrow> fl \<Rightarrow> fl" where
  "fl_mul (Fin a) (Fin b) = Fin (a * b)"
| "fl_mul (Fin a) PInf = (if a = 0 then NaN else if 0 < a then PInf else NInf)"
| "fl_mul (Fin a) NInf = (if a = 0 then NaN else if 0 < a then NInf else PInf)"
| "fl_mul PInf (Fin b) = (if b = 0 then NaN else if 0 < b then PInf else NInf)"
| "fl_mul NInf (Fin b) = (if b = 0 then NaN else if 0 < b then NInf else PInf)"
| "fl_mul PInf PInf = PInf"
| "fl_mul NInf NInf = PInf"
| "fl_mul PInf NInf = NInf"
| "fl_mul NInf PInf = NInf"
| "fl_mul _ _ = NaN"

text \<open>
  \<^verbatim>\<open>running_loss / len(loader.dataset)\<close>: a float divided by an int. Python raises
  ZeroDivisionError when the divisor is zero; a length is never negative.
\<close>

fun float_div_int :: "fl \<Rightarrow> nat \<Rightarrow> error + fl" where
  "float_div_int x 0 = Inl ZeroDivisionError"
| "float_div_int (Fin a) (Suc n) = Inr (Fin (a / real (Suc n)))"
| "float_div_int x (Suc n) = Inr x"

text \<open>\<^verbatim>\<open>correct_predictions / total_samples\<close>: true division of two ints.\<close>

definition int_div_int :: "nat \<Rightarrow> nat \<Rightarrow> error + fl" where
  "int_div_int c t = (if t = 0 then Inl ZeroDivisionError else Inr (Fin (real c / real t)))"

section \<open>Tensors\<close>

text \<open>
  A tensor is its shape and its elements in row-major (logical) order; strides and
  memory layout are not modelled.
\<close>

record tensor =
  shape :: "nat list"
  data :: "fl list"

definition numel :: "tensor \<Rightarrow> nat" where
  "numel t = prod_list (shape t)"

definition wf_tensor :: "tensor \<Rightarrow> bool" where
  "wf_tensor t \<longleftrightarrow> length (data t) = numel t"

definition zeros :: "nat list \<Rightarrow> tensor" where
  "zeros sh = \<lparr>shape = sh, data = replicate (prod_list sh) (Fin 0)\<rparr>"

text \<open>Element \<open>[b, c, h, w]\<close> of a four-dimensional tensor, and \<open>[b, t, f]\<close> of a
  three-dimensional one.\<close>

definition at4 :: "tensor \<Rightarrow> nat \<Rightarrow> nat \<Rightarrow> nat \<Rightarrow> nat \<Rightarrow> fl" where
  "at4 t i j k l =
     data t ! (((i * (shape t ! 1) + j) * (shape t ! 2) + k) * (shape t ! 3) + l)"

definition at3 :: "tensor \<Rightarrow> nat \<Rightarrow> nat \<Rightarrow> nat \<Rightarrow> fl" where
  "at3 t i j k = data t ! ((i * (shape t ! 1) + j) * (shape t ! 2) + k)"

text \<open>\<^verbatim>\<open>x.permute(0, 2, 3, 1)\<close>: defined on four-dimensional tensors only.\<close>

definition permute_0231 :: "tensor \<Rightarrow> error + tensor" where
  "permute_0231 t =
     (case shape t of
        [B, C, H, W] \<Rightarrow>
          Inr \<lparr>shape = [B, H, W, C],
               data = concat (map (\<lambda>b. concat (map (\<lambda>h. concat (map (\<lambda>w.
                        map (\<lambda>c. data t ! (((b * C + c) * H + h) * W + w)) [0..<C])
                      [0..<W])) [0..<H])) [0..<B])\<rparr>
      | _ \<Rightarrow> Inl RuntimeError)"

text \<open>
  \<^verbatim>\<open>x.view(x.size(0), x.size(1) * x.size(2), -1)\<close>: \<^verbatim>\<open>x.size(2)\<close> raises IndexError
  on a tensor of fewer than three dimensions; the \<^verbatim>\<open>-1\<close> is inferred from the number
  of elements, which fails when the two given sizes multiply to zero (the inferred size
  is ambiguous) or do not divide it.
\<close>

definition view_seq :: "tensor \<Rightarrow> error + tensor" where
  "view_seq t =
     (case shape t of
        d0 # d1 # d2 # rest \<Rightarrow>
          (let known = d0 * (d1 * d2) in
           if known = 0 \<or> numel t mod known \<noteq> 0 then Inl RuntimeError
           else Inr \<lparr>shape = [d0, d1 * d2, numel t div known], data = data t\<rparr>)
      | _ \<Rightarrow> Inl IndexError)"

text \<open>
  \<^verbatim>\<open>nn.Dropout(0.5)\<close>: the identity in evaluation mode; in training mode every
  element is multiplied by 0 (dropped) or by \<open>1 / (1 - 0.5) = 2\<close> (kept). The random
  choice is the function \<open>keep\<close> from element position to bool.
\<close>

definition dropout :: "bool \<Rightarrow> (nat \<Rightarrow> bool) \<Rightarrow> tensor \<Rightarrow> tensor" where
  "dropout train_mode keep t =
     (if train_mode
      then t\<lparr>data := map (\<lambda>i. fl_mul (data t ! i) (if keep i then Fin 2 else Fin 0))
                        [0..<length (data t)]\<rparr>
      else t)"

section \<open>Parameters, tracked values and the numeric library\<close>

text \<open>
  A parameter is a tensor with an optional gradient (\<^verbatim>\<open>p.grad\<close>, \<^verbatim>\<open>None\<close> until a
  backward pass reaches it). A value computed in a forward pass carries the names of the
  parameters it depends on through gradient-tracked operations (\<open>leaves\<close>): these are the
  parameters a backward pass from it writes a gradient to.
\<close>

record param =
  pvalue :: tensor
  pgrad :: "tensor option"

record var =
  val :: tensor
  leaves :: "string list"

record adam_state =
  step_count :: nat
  exp_avg :: tensor
  exp_avg_sq :: tensor

text \<open>
  The numeric routines of the libraries the script calls (EfficientNet's convolutional
  feature extraction and its buffer updates, the activation functions, the cross-entropy
  value, the gradient values, Adam's update rule, the random number generator) are
  parameters of the model: every theorem holds for all of them.
\<close>

record 'img kernels =
  extract_features_k ::
    "(string \<times> tensor) list \<Rightarrow> (string \<times> tensor) list \<Rightarrow> bool \<Rightarrow> 'img list \<Rightarrow> tensor"
  update_buffers_k ::
    "(string \<times> tensor) list \<Rightarrow> (string \<times> tensor) list \<Rightarrow> 'img list \<Rightarrow> (string \<times> tensor) list"
  sigmoid_k :: "fl \<Rightarrow> fl"
  tanh_k :: "fl \<Rightarrow> fl"
  cross_entropy_k :: "tensor \<Rightarrow> nat list \<Rightarrow> fl"
  grad_k :: "string \<Rightarrow> (string \<times> tensor) list \<Rightarrow> 'img list \<Rightarrow> nat list \<Rightarrow> nat \<Rightarrow> tensor"
  adam_k :: "real \<Rightarrow> adam_state option \<Rightarrow> tensor \<Rightarrow> tensor \<Rightarrow> tensor \<times> adam_state"
  rand_keep_k :: "nat \<Rightarrow> nat \<Rightarrow> bool"
  rand_key_k :: "nat \<Rightarrow> nat \<Rightarrow> nat"
  zero_grad_to_none_k :: bool

section \<open>LSTMModel\<close>

text \<open>
  \<^verbatim>\<open>LSTMModel(input_size, hidden_size, num_layers, num_classes)\<close> with the parameters
  of its \<^verbatim>\<open>nn.LSTM\<close> and its \<^verbatim>\<open>nn.Linear\<close>. The recurrence is the one layer the
  script gives the network (\<^verbatim>\<open>lstm_num_layers = 1\<close>).
\<close>

record LSTMModel =
  input_size :: nat
  hidden_size :: nat
  num_layers :: nat
  num_classes :: nat
  weight_ih_l0 :: param
  weight_hh_l0 :: param
  bias_ih_l0 :: param
  bias_hh_l0 :: param
  fc_weight :: param
  fc_bias :: param

definition dot :: "fl list \<Rightarrow> fl list \<Rightarrow> fl" where
  "dot xs ys = foldl fl_add (Fin 0) (map2 fl_mul xs ys)"

definition row :: "tensor \<Rightarrow> nat \<Rightarrow> nat \<Rightarrow> fl list" where
  "row t ncols r = take ncols (drop (r * ncols) (data t))"

text \<open>Pre-activation \<open>j\<close> of the four stacked gates (input, forget, cell, output).\<close>

definition lstm_gate :: "LSTMModel \<Rightarrow> fl list \<Rightarrow> fl list \<Rightarrow> nat \<Rightarrow> fl" where
  "lstm_gate m x h j =
     fl_add
       (fl_add (dot (row (pvalue (weight_ih_l0 m)) (input_size m) j) x)
               (data (pvalue (bias_ih_l0 m)) ! j))
       (fl_add (dot (row (pvalue (weight_hh_l0 m)) (hidden_size m) j) h)
               (data (pvalue (bias_hh_l0 m)) ! j))"

definition lstm_cell ::
  "'img kernels \<Rightarrow> LSTMModel \<Rightarrow> fl list \<Rightarrow> fl list \<times> fl list \<Rightarrow> fl list \<times> fl list" where
  "lstm_cell K m x hc =
     (let n = hidden_size m; h = fst hc; c = snd hc;
          c' = map (\<lambda>j. fl_add
                     (fl_mul (sigmoid_k K (lstm_gate m x h (n + j))) (c ! j))
                     (fl_mul (sigmoid_k K (lstm_gate m x h j))
                             (tanh_k K (lstm_gate m x h (2 * n + j))))) [0..<n];
          h' = map (\<lambda>j. fl_mul (sigmoid_k K (lstm_gate m x h (3 * n + j)))
                              (tanh_k K (c' ! j))) [0..<n]
      in (h', c'))"

text \<open>The hidden state after each time step, in order.\<close>

fun lstm_run ::
  "'img kernels \<Rightarrow> LSTMModel \<Rightarrow> fl list list \<Rightarrow> fl list \<times> fl list \<Rightarrow> fl list list" where
  "lstm_run K m [] hc = []"
| "lstm_run K m (x # xs) hc = (let hc' = lstm_cell K m x hc in fst hc' # lstm_run K m xs hc')"

text \<open>Time step \<open>t\<close> of batch element \<open>b\<close> of a \<open>(B, T, F)\<close> tensor, and the whole sequence.\<close>

definition step_vec :: "tensor \<Rightarrow> nat \<Rightarrow> nat \<Rightarrow> nat \<Rightarrow> nat \<Rightarrow> fl list" where
  "step_vec x T F b t = take F (drop ((b * T + t) * F) (data x))"

definition steps_of :: "tensor \<Rightarrow> nat \<Rightarrow> nat \<Rightarrow> nat \<Rightarrow> fl list list" where
  "steps_of x T F b = map (step_vec x T F b) [0..<T]"

text \<open>
  \<^verbatim>\<open>self.lstm(x, (h0, c0))\<close> with \<^verbatim>\<open>batch_first=True\<close>: the input must be
  \<open>(B, T, input_size)\<close> and the initial states \<open>(1, B, hidden_size)\<close>; the output holds
  the hidden state of every time step, \<open>(B, T, hidden_size)\<close>.
\<close>

definition nn_LSTM_forward ::
  "'img kernels \<Rightarrow> LSTMModel \<Rightarrow> tensor \<Rightarrow> tensor \<Rightarrow> tensor \<Rightarrow> error + tensor" where
  "nn_LSTM_forward K m x h0 c0 =
     (case shape x of
        [B, T, F] \<Rightarrow>
          if F \<noteq> input_size m then Inl RuntimeError
          else if shape h0 \<noteq> [1, B, hidden_size m] \<or> shape c0 \<noteq> [1, B, hidden_size m]
          then Inl RuntimeError
          else Inr \<lparr>shape = [B, T, hidden_size m],
                    data = concat (map (\<lambda>b. concat (lstm_run K m (steps_of x T F b)
                             (row h0 (hidden_size m) b, row c0 (hidden_size m) b)))
                           [0..<B])\<rparr>
      | _ \<Rightarrow> Inl RuntimeError)"

text \<open>\<^verbatim>\<open>out[:, -1, :]\<close>: the last time step of every batch element.\<close>

definition select_last :: "tensor \<Rightarrow> error + tensor" where
  "select_last t =
     (case shape t of
        [B, T, Hd] \<Rightarrow>
          if T = 0 then Inl IndexError
          else Inr \<lparr>shape = [B, Hd],
                    data = concat (map (\<lambda>b. step_vec t T Hd b (T - 1)) [0..<B])\<rparr>
      | _ \<Rightarrow> Inl IndexError)"

text \<open>\<^verbatim>\<open>self.fc(out)\<close>: \<^verbatim>\<open>nn.Linear(hidden_size, num_classes)\<close> on the last axis.\<close>

definition nn_Linear_forward :: "LSTMModel \<Rightarrow> tensor \<Rightarrow> error + tensor" where
  "nn_Linear_forward m x =
     (if shape x = [] \<or> last (shape x) \<noteq> hidden_size m then Inl RuntimeError
      else Inr \<lparr>shape = butlast (shape x) @ [num_classes m],
                data = concat (map (\<lambda>b. map (\<lambda>j.
                         fl_add (dot (row (pvalue (fc_weight m)) (hidden_size m) j)
                                     (row x (hidden_size m) b))
                                (data (pvalue (fc_bias m)) ! j)) [0..<num_classes m])
                       [0..<prod_list (butlast (shape x))])\<rparr>)"

definition lstm_param_names :: "string list" where
  "lstm_param_names =
     [''lstm_model.lstm.weight_ih_l0'', ''lstm_model.lstm.weight_hh_l0'',
      ''lstm_model.lstm.bias_ih_l0'', ''lstm_model.lstm.bias_hh_l0'',
      ''lstm_model.fc.weight'', ''lstm_model.fc.bias'']"

text \<open>
  \<^verbatim>\<open>LSTMModel.forward\<close>. \<open>grad_enabled\<close> is false inside \<^verbatim>\<open>torch.no_grad()\<close>;
  \<open>train_mode\<close> is the module's training flag.
\<close>

definition LSTMModel_forward ::
  "'img kernels \<Rightarrow> bool \<Rightarrow> bool \<Rightarrow> (nat \<Rightarrow> bool) \<Rightarrow> LSTMModel \<Rightarrow> var \<Rightarrow> error + var" where
  "LSTMModel_forward K grad_enabled train_mode keep m x =
     (case shape (val x) of
        [] \<Rightarrow> Inl IndexError
      | B # _ \<Rightarrow>
          (let h0 = zeros [num_layers m, B, hidden_size m];
               c0 = zeros [num_layers m, B, hidden_size m]
           in case nn_LSTM_forward K m (val x) h0 c0 of
                Inl e \<Rightarrow> Inl e
              | Inr out \<Rightarrow>
                  (case select_last out of
                     Inl e \<Rightarrow> Inl e
                   | Inr out1 \<Rightarrow>
                       (case nn_Linear_forward m (dropout train_mode keep out1) of
                          Inl e \<Rightarrow> Inl e
                        | Inr out2 \<Rightarrow>
                            Inr \<lparr>val = out2,
                                 leaves = (if grad_enabled then leaves x @ lstm_param_names
                                           else [])\<rparr>))))"

section \<open>CombinedModel\<close>

text \<open>
  The extractor (its parameters, backbone and replaced head alike, and its buffers such
  as running statistics), the recurrent classifier and the training flag that
  \<^verbatim>\<open>model.train()\<close> and \<^verbatim>\<open>model.eval()\<close> set on every submodule.
\<close>

record CombinedModel =
  effnet_params :: "(string \<times> param) list"
  effnet_buffers :: "(string \<times> tensor) list"
  lstm_model :: LSTMModel
  training :: bool

definition values_of :: "(string \<times> param) list \<Rightarrow> (string \<times> tensor) list" where
  "values_of ps = map (\<lambda>(k, p). (k, pvalue p)) ps"

text \<open>
  \<^verbatim>\<open>self.effnet_model.extract_features(x)\<close>: the classifier head \<^verbatim>\<open>_fc\<close> is not
  called. With gradient tracking the result would depend on the extractor's parameters;
  without, it depends on none.
\<close>

definition extract_features :: "'img kernels \<Rightarrow> bool \<Rightarrow> CombinedModel \<Rightarrow> 'img list \<Rightarrow> var" where
  "extract_features K grad_enabled m x =
     \<lparr>val = extract_features_k K (values_of (effnet_params m)) (effnet_buffers m) (training m) x,
      leaves = (if grad_enabled then map (\<lambda>(k, p). ''effnet_model.'' @ k) (effnet_params m)
                else [])\<rparr>"

text \<open>A forward pass in training mode may update the extractor's buffers.\<close>

definition forward_buffers :: "'img kernels \<Rightarrow> CombinedModel \<Rightarrow> 'img list \<Rightarrow> CombinedModel" where
  "forward_buffers K m x =
     (if training m
      then m\<lparr>effnet_buffers :=
               update_buffers_k K (values_of (effnet_params m)) (effnet_buffers m) x\<rparr>
      else m)"

text \<open>
  \<^verbatim>\<open>CombinedModel.forward\<close>. The result is the logits, the model (buffers possibly
  updated) and the state of the random number generator, which the two dropout layers
  advance in training mode.
\<close>

definition CombinedModel_forward ::
  "'img kernels \<Rightarrow> bool \<Rightarrow> CombinedModel \<Rightarrow> nat \<Rightarrow> 'img list \<Rightarrow> error + (var \<times> CombinedModel \<times> nat)" where
  "CombinedModel_forward K grad_enabled m seed x =
     (let x0 = extract_features K False m x;
          m' = forward_buffers K m x
      in case permute_0231 (val x0) of
           Inl e \<Rightarrow> Inl e
         | Inr x1 \<Rightarrow>
             (case view_seq x1 of
                Inl e \<Rightarrow> Inl e
              | Inr x2 \<Rightarrow>
                  (let x3 = \<lparr>val = dropout (training m) (rand_keep_k K seed) x2,
                             leaves = leaves x0\<rparr>
                   in case LSTMModel_forward K grad_enabled (training m)
                             (rand_keep_k K (seed + 1)) (lstm_model m) x3 of
                        Inl e \<Rightarrow> Inl e
                      | Inr y \<Rightarrow> Inr (y, m', if training m then seed + 2 else seed))))"

section \<open>State dictionaries, autograd and the optimizer\<close>

type_synonym state_dict = "(string \<times> tensor) list"

definition lstm_named_params :: "LSTMModel \<Rightarrow> (string \<times> param) list" where
  "lstm_named_params m =
     [(''lstm_model.lstm.weight_ih_l0'', weight_ih_l0 m),
      (''lstm_model.lstm.weight_hh_l0'', weight_hh_l0 m),
      (''lstm_model.lstm.bias_ih_l0'', bias_ih_l0 m),
      (''lstm_model.lstm.bias_hh_l0'', bias_hh_l0 m),
      (''lstm_model.fc.weight'', fc_weight m),
      (''lstm_model.fc.bias'', fc_bias m)]"

definition map_lstm_params :: "(string \<Rightarrow> param \<Rightarrow> param) \<Rightarrow> LSTMModel \<Rightarrow> LSTMModel" where
  "map_lstm_params f m =
     m\<lparr>weight_ih_l0 := f ''lstm_model.lstm.weight_ih_l0'' (weight_ih_l0 m),
       weight_hh_l0 := f ''lstm_model.lstm.weight_hh_l0'' (weight_hh_l0 m),
       bias_ih_l0 := f ''lstm_model.lstm.bias_ih_l0'' (bias_ih_l0 m),
       bias_hh_l0 := f ''lstm_model.lstm.bias_hh_l0'' (bias_hh_l0 m),
       fc_weight := f ''lstm_model.fc.weight'' (fc_weight m),
       fc_bias := f ''lstm_model.fc.bias'' (fc_bias m)\<rparr>"

text \<open>\<^verbatim>\<open>combined_model.named_parameters()\<close>, and an update of every parameter by name.\<close>

definition named_parameters :: "CombinedModel \<Rightarrow> (string \<times> param) list" where
  "named_parameters m =
     map (\<lambda>(k, p). (''effnet_model.'' @ k, p)) (effnet_params m)
     @ lstm_named_params (lstm_model m)"

definition map_params :: "(string \<Rightarrow> param \<Rightarrow> param) \<Rightarrow> CombinedModel \<Rightarrow> CombinedModel" where
  "map_params f m =
     m\<lparr>effnet_params := map (\<lambda>(k, p). (k, f (''effnet_model.'' @ k) p)) (effnet_params m),
       lstm_model := map_lstm_params f (lstm_model m)\<rparr>"

text \<open>\<^verbatim>\<open>effnet_model.state_dict()\<close> and \<^verbatim>\<open>combined_model.state_dict()\<close>.\<close>

definition effnet_state_dict :: "CombinedModel \<Rightarrow> state_dict" where
  "effnet_state_dict m = values_of (effnet_params m) @ effnet_buffers m"

definition state_dict :: "CombinedModel \<Rightarrow> state_dict" where
  "state_dict m =
     map (\<lambda>(k, t). (''effnet_model.'' @ k, t)) (effnet_state_dict m)
     @ values_of (lstm_named_params (lstm_model m))"

text \<open>
  \<^verbatim>\<open>load_state_dict\<close> (strict): the file must have exactly the keys of the module's
  state dictionary, each with the shape of the tensor it replaces.
\<close>

definition compatible :: "state_dict \<Rightarrow> state_dict \<Rightarrow> bool" where
  "compatible target file \<longleftrightarrow>
     set (map fst file) = set (map fst target) \<and>
     list_all (\<lambda>(k, t). map_option shape (map_of file k) = Some (shape t)) target"

definition load_value :: "state_dict \<Rightarrow> string \<Rightarrow> tensor \<Rightarrow> tensor" where
  "load_value file k old = (case map_of file k of Some t \<Rightarrow> t | None \<Rightarrow> old)"

definition effnet_load_state_dict ::
  "(string \<times> param) list \<times> state_dict \<Rightarrow> state_dict
     \<Rightarrow> error + ((string \<times> param) list \<times> state_dict)" where
  "effnet_load_state_dict eff file =
     (if compatible (values_of (fst eff) @ snd eff) file
      then Inr (map (\<lambda>(k, p). (k, p\<lparr>pvalue := load_value file k (pvalue p)\<rparr>)) (fst eff),
                map (\<lambda>(k, t). (k, load_value file k t)) (snd eff))
      else Inl RuntimeError)"

definition load_state_dict :: "CombinedModel \<Rightarrow> state_dict \<Rightarrow> error + CombinedModel" where
  "load_state_dict m file =
     (if compatible (state_dict m) file
      then Inr ((map_params (\<lambda>k p. p\<lparr>pvalue := load_value file k (pvalue p)\<rparr>) m)
                \<lparr>effnet_buffers :=
                   map (\<lambda>(k, t). (k, load_value file (''effnet_model.'' @ k) t))
                       (effnet_buffers m)\<rparr>)
      else Inl RuntimeError)"

text \<open>\<^verbatim>\<open>torch.load(name)\<close> from the files present when the script starts.\<close>

definition torch_load :: "(string \<Rightarrow> state_dict option) \<Rightarrow> string \<Rightarrow> error + state_dict" where
  "torch_load files name = (case files name of None \<Rightarrow> Inl FileNotFoundError | Some sd \<Rightarrow> Inr sd)"

text \<open>
  \<^verbatim>\<open>optim.Adam(combined_model.parameters(), lr=0.001)\<close>: the optimizer holds every
  parameter of the combined model, and a moment state for each parameter it has updated.
\<close>

record optimizer =
  registered :: "string list"
  lr :: real
  adam_states :: "(string \<times> adam_state) list"

definition Adam :: "CombinedModel \<Rightarrow> real \<Rightarrow> optimizer" where
  "Adam m rate = \<lparr>registered = map fst (named_parameters m), lr = rate, adam_states = []\<rparr>"

text \<open>
  \<^verbatim>\<open>optimizer.zero_grad()\<close>: clears the gradient of every registered parameter, to
  \<^verbatim>\<open>None\<close> or (older library versions) to zeros where one exists.
\<close>

definition zero_grad :: "'img kernels \<Rightarrow> optimizer \<Rightarrow> CombinedModel \<Rightarrow> CombinedModel" where
  "zero_grad K opt m =
     map_params (\<lambda>k p. if k \<in> set (registered opt)
                        then (if zero_grad_to_none_k K then p\<lparr>pgrad := None\<rparr>
                              else p\<lparr>pgrad := map_option (\<lambda>g. zeros (shape g)) (pgrad p)\<rparr>)
                        else p) m"

definition tensor_add :: "tensor \<Rightarrow> tensor \<Rightarrow> tensor" where
  "tensor_add a b = a\<lparr>data := map2 fl_add (data a) (data b)\<rparr>"

text \<open>
  \<^verbatim>\<open>loss.backward()\<close>: raises when the loss depends on no parameter; otherwise adds
  a gradient to each parameter the loss depends on, and to no other.
\<close>

definition backward ::
  "'img kernels \<Rightarrow> CombinedModel \<Rightarrow> string list \<Rightarrow> 'img list \<Rightarrow> nat list \<Rightarrow> nat
     \<Rightarrow> error + CombinedModel" where
  "backward K m loss_leaves x labels seed =
     (if loss_leaves = [] then Inl RuntimeError
      else Inr (map_params
                  (\<lambda>k p. if k \<in> set loss_leaves
                          then (let g = grad_k K k (state_dict m) x labels seed
                                in p\<lparr>pgrad := Some (case pgrad p of None \<Rightarrow> g
                                                      | Some old \<Rightarrow> tensor_add old g)\<rparr>)
                          else p) m))"

text \<open>
  \<^verbatim>\<open>optimizer.step()\<close>: Adam skips a parameter whose gradient is \<^verbatim>\<open>None\<close> and
  updates every other registered parameter.
\<close>

definition optimizer_step :: "'img kernels \<Rightarrow> optimizer \<Rightarrow> CombinedModel \<Rightarrow> CombinedModel" where
  "optimizer_step K opt m =
     map_params (\<lambda>k p. if k \<in> set (registered opt)
                        then (case pgrad p of
                                None \<Rightarrow> p
                              | Some g \<Rightarrow>
                                  p\<lparr>pvalue := fst (adam_k K (lr opt) (map_of (adam_states opt) k)
                                                     (pvalue p) g)\<rparr>)
                        else p) m"

definition optimizer_state_step :: "'img kernels \<Rightarrow> optimizer \<Rightarrow> CombinedModel \<Rightarrow> optimizer" where
  "optimizer_state_step K opt m =
     opt\<lparr>adam_states :=
           concat (map (\<lambda>(k, p). if k \<in> set (registered opt)
                                  then (case pgrad p of
                                          None \<Rightarrow> []
                                        | Some g \<Rightarrow>
                                            [(k, snd (adam_k K (lr opt) (map_of (adam_states opt) k)
                                                        (pvalue p) g))])
                                  else [])
                       (named_parameters m))
           @ adam_states opt\<rparr>"

section \<open>Loss, predictions and data loading\<close>

text \<open>
  \<^verbatim>\<open>nn.CrossEntropyLoss()\<close> on logits \<open>(B, C)\<close> and \<open>B\<close> class indices: the batch sizes
  must agree and every label must be a class index; the value is the mean loss.
\<close>

definition criterion :: "'img kernels \<Rightarrow> var \<Rightarrow> nat list \<Rightarrow> error + fl" where
  "criterion K outputs labels =
     (case shape (val outputs) of
        [B, C] \<Rightarrow>
          if B \<noteq> length labels then Inl ValueError
          else if list_ex (\<lambda>l. C \<le> l) labels then Inl IndexError
          else Inr (cross_entropy_k K (val outputs) labels)
      | _ \<Rightarrow> Inl RuntimeError)"

text \<open>
  \<^verbatim>\<open>torch.max(outputs, 1)\<close>, the indices: in each row the first position of the
  maximum, or of the first NaN.
\<close>

fun argmax_from :: "fl list \<Rightarrow> nat \<Rightarrow> fl \<Rightarrow> nat \<Rightarrow> nat" where
  "argmax_from [] i best k = k"
| "argmax_from (v # vs) i best k =
     (if is_nan best then k
      else if \<not> fl_le v best then argmax_from vs (Suc i) v i
      else argmax_from vs (Suc i) best k)"

definition argmax_row :: "fl list \<Rightarrow> nat" where
  "argmax_row vs = (case vs of [] \<Rightarrow> 0 | v # rest \<Rightarrow> argmax_from rest 1 v 0)"

definition torch_max_indices :: "tensor \<Rightarrow> error + nat list" where
  "torch_max_indices t =
     (case shape t of
        [B, C] \<Rightarrow> if C = 0 then Inl IndexError
                  else Inr (map (\<lambda>b. argmax_row (row t C b)) [0..<B])
      | _ \<Rightarrow> Inl IndexError)"

text \<open>\<^verbatim>\<open>(predicted == labels).sum().item()\<close>.\<close>

definition count_eq :: "nat list \<Rightarrow> nat list \<Rightarrow> nat" where
  "count_eq predicted labels = length (filter (\<lambda>(p, l). p = l) (zip predicted labels))"

text \<open>
  \<^verbatim>\<open>DataLoader(dataset, batch_size, shuffle)\<close>: the samples in order, or in a random
  order drawn when the iteration starts, cut into batches of \<open>batch_size\<close>; the last batch
  may be smaller (\<^verbatim>\<open>drop_last\<close> is off). A random order is the order of random sort keys.
\<close>

record 'img loader =
  dataset :: "('img \<times> nat) list"
  batch_size :: nat
  shuffle :: bool

function chunks :: "nat \<Rightarrow> 'a list \<Rightarrow> 'a list list" where
  "chunks n xs = (if n = 0 \<or> xs = [] then [] else take n xs # chunks n (drop n xs))"
  by pat_completeness auto
termination
  by (relation "measure (\<lambda>(n, xs). length xs)") auto

declare chunks.simps [simp del]

definition loader_order :: "'img kernels \<Rightarrow> 'img loader \<Rightarrow> nat \<Rightarrow> nat list" where
  "loader_order K ld seed =
     (if shuffle ld then sort_key (rand_key_k K seed) [0..<length (dataset ld)]
      else [0..<length (dataset ld)])"

definition loader_batches ::
  "'img kernels \<Rightarrow> 'img loader \<Rightarrow> nat \<Rightarrow> ('img list \<times> nat list) list" where
  "loader_batches K ld seed =
     map (\<lambda>c. (map (\<lambda>i. fst (dataset ld ! i)) c, map (\<lambda>i. snd (dataset ld ! i)) c))
         (chunks (batch_size ld) (loader_order K ld seed))"

definition loader_seed :: "'img loader \<Rightarrow> nat \<Rightarrow> nat" where
  "loader_seed ld seed = (if shuffle ld then Suc seed else seed)"

section \<open>The training script\<close>

text \<open>
  The state the script mutates: the combined model (which shares the extractor with the
  global \<^verbatim>\<open>effnet_model\<close>), the optimizer, the random number generator and the files
  written so far, in order.
\<close>

record world =
  model :: CombinedModel
  optim :: optimizer
  rng :: nat
  writes :: "(string \<times> state_dict) list"

record stats =
  running_loss :: fl
  correct_predictions :: nat
  total_samples :: nat

definition stats0 :: stats where
  "stats0 = \<lparr>running_loss = Fin 0, correct_predictions = 0, total_samples = 0\<rparr>"

text \<open>
  Lines 136 to 139 of \<^verbatim>\<open>train\<close> and, word for word, 171 to 174 of
  \<^verbatim>\<open>validate\<close>: the statistics after a batch.
\<close>

definition update_stats :: "stats \<Rightarrow> fl \<Rightarrow> nat \<Rightarrow> nat list \<Rightarrow> nat list \<Rightarrow> stats" where
  "update_stats st loss n_inputs predicted labels =
     \<lparr>running_loss = fl_add (running_loss st) (fl_mul loss (Fin (real n_inputs))),
      correct_predictions = correct_predictions st + count_eq predicted labels,
      total_samples = total_samples st + length labels\<rparr>"

definition batch_stats :: "stats \<Rightarrow> fl \<Rightarrow> var \<Rightarrow> 'img list \<times> nat list \<Rightarrow> error + stats" where
  "batch_stats st loss outputs batch =
     (case torch_max_indices (val outputs) of
        Inl e \<Rightarrow> Inl e
      | Inr predicted \<Rightarrow> Inr (update_stats st loss (length (fst batch)) predicted (snd batch)))"

text \<open>
  Lines 128 to 133: one optimisation step of \<^verbatim>\<open>train\<close> on a batch. The result is
  the new state, \<^verbatim>\<open>loss.item()\<close> and the logits.
\<close>

definition train_step ::
  "'img kernels \<Rightarrow> world \<Rightarrow> 'img list \<times> nat list \<Rightarrow> error + (world \<times> fl \<times> var)" where
  "train_step K w batch =
     (let inputs = fst batch; labels = snd batch;
          m1 = zero_grad K (optim w) (model w)
      in case CombinedModel_forward K True m1 (rng w) inputs of
           Inl e \<Rightarrow> Inl e
         | Inr r \<Rightarrow>
             (let outputs = fst r; m2 = fst (snd r); seed2 = snd (snd r)
              in case criterion K outputs labels of
                   Inl e \<Rightarrow> Inl e
                 | Inr loss \<Rightarrow>
                     (case backward K m2 (leaves outputs) inputs labels (rng w) of
                        Inl e \<Rightarrow> Inl e
                      | Inr m3 \<Rightarrow>
                          Inr (w\<lparr>model := optimizer_step K (optim w) m3,
                                 optim := optimizer_state_step K (optim w) m3,
                                 rng := seed2\<rparr>, loss, outputs))))"

text \<open>Lines 166 to 168: the same for \<^verbatim>\<open>validate\<close>, inside \<^verbatim>\<open>torch.no_grad()\<close>.\<close>

definition validate_step ::
  "'img kernels \<Rightarrow> world \<Rightarrow> 'img list \<times> nat list \<Rightarrow> error + (world \<times> fl \<times> var)" where
  "validate_step K w batch =
     (let inputs = fst batch; labels = snd batch
      in case CombinedModel_forward K False (model w) (rng w) inputs of
           Inl e \<Rightarrow> Inl e
         | Inr r \<Rightarrow>
             (let outputs = fst r; m2 = fst (snd r); seed2 = snd (snd r)
              in case criterion K outputs labels of
                   Inl e \<Rightarrow> Inl e
                 | Inr loss \<Rightarrow> Inr (w\<lparr>model := m2, rng := seed2\<rparr>, loss, outputs)))"

text \<open>
  The loop over the batches of a loader, in \<^verbatim>\<open>train\<close> and in \<^verbatim>\<open>validate\<close>:
  the step, then the statistics.
\<close>

fun batch_loop ::
  "(world \<Rightarrow> 'img list \<times> nat list \<Rightarrow> error + (world \<times> fl \<times> var))
     \<Rightarrow> ('img list \<times> nat list) list \<Rightarrow> world \<times> stats \<Rightarrow> error + (world \<times> stats)" where
  "batch_loop step [] ws = Inr ws"
| "batch_loop step (b # bs) ws =
     (case step (fst ws) b of
        Inl e \<Rightarrow> Inl e
      | Inr r \<Rightarrow>
          (case batch_stats (snd ws) (fst (snd r)) (snd (snd r)) b of
             Inl e \<Rightarrow> Inl e
           | Inr st' \<Rightarrow> batch_loop step bs (fst r, st')))"

text \<open>
  What the loop computes batch by batch, for stating its result: the loss value, the
  logits and the batch itself.
\<close>

fun batch_trace ::
  "(world \<Rightarrow> 'img list \<times> nat list \<Rightarrow> error + (world \<times> fl \<times> var))
     \<Rightarrow> ('img list \<times> nat list) list \<Rightarrow> world
     \<Rightarrow> (fl \<times> var \<times> ('img list \<times> nat list)) list" where
  "batch_trace step [] w = []"
| "batch_trace step (b # bs) w =
     (case step w b of
        Inl e \<Rightarrow> []
      | Inr r \<Rightarrow> (fst (snd r), snd (snd r), b) # batch_trace step bs (fst r))"

text \<open>\<^verbatim>\<open>validate(model, val_loader, criterion, device)\<close>: the new state, the average
  loss and the accuracy.\<close>

definition validate :: "'img kernels \<Rightarrow> world \<Rightarrow> 'img loader \<Rightarrow> error + (world \<times> fl \<times> fl)" where
  "validate K w val_loader =
     (let w1 = w\<lparr>model := (model w)\<lparr>training := False\<rparr>\<rparr>;
          batches = loader_batches K val_loader (rng w1);
          w2 = w1\<lparr>rng := loader_seed val_loader (rng w1)\<rparr>
      in case batch_loop (validate_step K) batches (w2, stats0) of
           Inl e \<Rightarrow> Inl e
         | Inr ws \<Rightarrow>
             (case float_div_int (running_loss (snd ws)) (length (dataset val_loader)) of
                Inl e \<Rightarrow> Inl e
              | Inr avg_val_loss \<Rightarrow>
                  (case int_div_int (correct_predictions (snd ws)) (total_samples (snd ws)) of
                     Inl e \<Rightarrow> Inl e
                   | Inr val_accuracy \<Rightarrow> Inr (fst ws, avg_val_loss, val_accuracy))))"

text \<open>What one epoch prints, and the files it wrote at its end.\<close>

record epoch_report =
  epoch_loss :: fl
  epoch_accuracy :: fl
  val_loss :: fl
  val_accuracy :: fl
  written :: "(string \<times> state_dict) list"

text \<open>
  Lines 154 to 156, the end of an epoch: the new state, the new \<^verbatim>\<open>best_val_loss\<close>
  and the files written.
\<close>

definition checkpoint ::
  "world \<Rightarrow> fl \<Rightarrow> fl \<Rightarrow> world \<times> fl \<times> (string \<times> state_dict) list" where
  "checkpoint w best_val_loss vloss =
     (if fl_less vloss best_val_loss
      then (w\<lparr>writes := writes w @ [(''model_best.pth'', state_dict (model w))]\<rparr>,
            vloss, [(''model_best.pth'', state_dict (model w))])
      else (w, best_val_loss, []))"

text \<open>The body of the epoch loop of \<^verbatim>\<open>train\<close>; \<open>best\<close> is \<^verbatim>\<open>best_val_loss\<close>.\<close>

definition train_epoch ::
  "'img kernels \<Rightarrow> 'img loader \<Rightarrow> 'img loader \<Rightarrow> world \<Rightarrow> fl
     \<Rightarrow> error + (world \<times> fl \<times> epoch_report)" where
  "train_epoch K train_loader val_loader w best =
     (let w1 = w\<lparr>model := (model w)\<lparr>training := True\<rparr>\<rparr>;
          batches = loader_batches K train_loader (rng w1);
          w2 = w1\<lparr>rng := loader_seed train_loader (rng w1)\<rparr>
      in case batch_loop (train_step K) batches (w2, stats0) of
           Inl e \<Rightarrow> Inl e
         | Inr ws \<Rightarrow>
             (case float_div_int (running_loss (snd ws)) (length (dataset train_loader)) of
                Inl e \<Rightarrow> Inl e
              | Inr eloss \<Rightarrow>
                  (case int_div_int (correct_predictions (snd ws)) (total_samples (snd ws)) of
                     Inl e \<Rightarrow> Inl e
                   | Inr eacc \<Rightarrow>
                       (case validate K (fst ws) val_loader of
                          Inl e \<Rightarrow> Inl e
                        | Inr r \<Rightarrow>
                            (let ck = checkpoint (fst r) best (fst (snd r))
                             in Inr (fst ck, fst (snd ck),
                                     \<lparr>epoch_loss = eloss, epoch_accuracy = eacc,
                                      val_loss = fst (snd r), val_accuracy = snd (snd r),
                                      written = snd (snd ck)\<rparr>))))))"

text \<open>The epoch loop, from the epoch numbers still to run.\<close>

fun train_epochs ::
  "'img kernels \<Rightarrow> 'img loader \<Rightarrow> 'img loader \<Rightarrow> nat list \<Rightarrow> world \<Rightarrow> fl
     \<Rightarrow> error + (world \<times> epoch_report list)" where
  "train_epochs K train_loader val_loader [] w best = Inr (w, [])"
| "train_epochs K train_loader val_loader (epoch # epochs) w best =
     (case train_epoch K train_loader val_loader w best of
        Inl e \<Rightarrow> Inl e
      | Inr r \<Rightarrow>
          (case train_epochs K train_loader val_loader epochs (fst r) (fst (snd r)) of
             Inl e \<Rightarrow> Inl e
           | Inr r' \<Rightarrow> Inr (fst r', snd (snd r) # snd r')))"

text \<open>\<^verbatim>\<open>train(model, train_loader, val_loader, criterion, optimizer, num_epochs)\<close>.\<close>

definition train ::
  "'img kernels \<Rightarrow> world \<Rightarrow> 'img loader \<Rightarrow> 'img loader \<Rightarrow> nat
     \<Rightarrow> error + (world \<times> epoch_report list)" where
  "train K w train_loader val_loader num_epochs =
     train_epochs K train_loader val_loader [0..<num_epochs] w PInf"

text \<open>
  What the script reads from its environment: the pretrained backbone of
  \<^verbatim>\<open>EfficientNet.from_pretrained('efficientnet-b0')\<close> (every parameter and buffer but
  the final layer \<^verbatim>\<open>_fc\<close>, which the script replaces) and the input width of that
  layer, the values a freshly constructed layer is initialised with, the checkpoint files
  on disk, the three image folders and the state of the random number generator.
\<close>

record 'img script_env =
  backbone_params :: state_dict
  backbone_buffers :: state_dict
  num_ftrs :: nat
  init_value :: "string \<Rightarrow> nat \<Rightarrow> fl"
  files :: "string \<Rightarrow> state_dict option"
  train_dir :: "('img \<times> nat) list"
  val_dir :: "('img \<times> nat) list"
  test_dir :: "('img \<times> nat) list"
  seed0 :: nat

definition fresh :: "(string \<Rightarrow> nat \<Rightarrow> fl) \<Rightarrow> string \<Rightarrow> nat list \<Rightarrow> param" where
  "fresh init name sh =
     \<lparr>pvalue = \<lparr>shape = sh, data = map (init name) [0..<prod_list sh]\<rparr>, pgrad = None\<rparr>"

text \<open>\<^verbatim>\<open>datasets.ImageFolder(dir, transform)\<close> fails on a folder without images.\<close>

definition ImageFolder :: "('img \<times> nat) list \<Rightarrow> error + ('img \<times> nat) list" where
  "ImageFolder samples = (if samples = [] then Inl FileNotFoundError else Inr samples)"

definition DataLoader :: "('img \<times> nat) list \<Rightarrow> nat \<Rightarrow> bool \<Rightarrow> 'img loader" where
  "DataLoader ds bs sh = \<lparr>dataset = ds, batch_size = bs, shuffle = sh\<rparr>"

text \<open>The parameters of \<^verbatim>\<open>CustomClassifier(num_ftrs, num_classes)\<close>, under \<^verbatim>\<open>_fc\<close>.\<close>

definition CustomClassifier_params ::
  "(string \<Rightarrow> nat \<Rightarrow> fl) \<Rightarrow> nat \<Rightarrow> nat \<Rightarrow> (string \<times> param) list" where
  "CustomClassifier_params init n_ftrs n_classes =
     [(''_fc.fc1.weight'', fresh init ''_fc.fc1.weight'' [512, n_ftrs]),
      (''_fc.fc1.bias'', fresh init ''_fc.fc1.bias'' [512]),
      (''_fc.fc2.weight'', fresh init ''_fc.fc2.weight'' [n_classes, 512]),
      (''_fc.fc2.bias'', fresh init ''_fc.fc2.bias'' [n_classes])]"

definition LSTMModel_init ::
  "(string \<Rightarrow> nat \<Rightarrow> fl) \<Rightarrow> nat \<Rightarrow> nat \<Rightarrow> nat \<Rightarrow> nat \<Rightarrow> LSTMModel" where
  "LSTMModel_init init n_in n_hidden n_layers n_classes =
     \<lparr>input_size = n_in, hidden_size = n_hidden, num_layers = n_layers,
      num_classes = n_classes,
      weight_ih_l0 = fresh init ''lstm_model.lstm.weight_ih_l0'' [4 * n_hidden, n_in],
      weight_hh_l0 = fresh init ''lstm_model.lstm.weight_hh_l0'' [4 * n_hidden, n_hidden],
      bias_ih_l0 = fresh init ''lstm_model.lstm.bias_ih_l0'' [4 * n_hidden],
      bias_hh_l0 = fresh init ''lstm_model.lstm.bias_hh_l0'' [4 * n_hidden],
      fc_weight = fresh init ''lstm_model.fc.weight'' [n_classes, n_hidden],
      fc_bias = fresh init ''lstm_model.fc.bias'' [n_classes]\<rparr>"

text \<open>
  Lines 33 to 62: the data sets and loaders, the pretrained extractor with its final
  layer replaced. The test set is built and never used.
\<close>

definition build_loaders :: "'img script_env \<Rightarrow> error + ('img loader \<times> 'img loader)" where
  "build_loaders env =
     (case ImageFolder (train_dir env) of
        Inl e \<Rightarrow> Inl e
      | Inr train_dataset \<Rightarrow>
          (case ImageFolder (val_dir env) of
             Inl e \<Rightarrow> Inl e
           | Inr val_dataset \<Rightarrow>
               (case ImageFolder (test_dir env) of
                  Inl e \<Rightarrow> Inl e
                | Inr test_dataset \<Rightarrow>
                    Inr (DataLoader train_dataset 32 True, DataLoader val_dataset 32 False))))"

definition build_effnet :: "'img script_env \<Rightarrow> (string \<times> param) list \<times> state_dict" where
  "build_effnet env =
     (map (\<lambda>(k, t). (k, \<lparr>pvalue = t, pgrad = None\<rparr>)) (backbone_params env)
      @ CustomClassifier_params (init_value env) (num_ftrs env) 2,
      backbone_buffers env)"

text \<open>
  Lines 63 to 117: load the extractor's checkpoint, build the recurrent classifier, the
  combined model and the optimizer, load the combined checkpoint.
\<close>

definition build_model :: "'img script_env \<Rightarrow> error + world" where
  "build_model env =
     (case torch_load (files env) ''efficientnet_model.pth'' of
        Inl e \<Rightarrow> Inl e
      | Inr file1 \<Rightarrow>
          (case effnet_load_state_dict (build_effnet env) file1 of
             Inl e \<Rightarrow> Inl e
           | Inr effnet_model \<Rightarrow>
               (let lstm = LSTMModel_init (init_value env) (num_ftrs env) 128 1 2;
                    combined_model = \<lparr>effnet_params = fst effnet_model,
                                      effnet_buffers = snd effnet_model,
                                      lstm_model = lstm, training = True\<rparr>;
                    optimizer = Adam combined_model (1 / 1000)
                in case torch_load (files env) ''combined_model_best.pth'' of
                     Inl e \<Rightarrow> Inl e
                   | Inr file2 \<Rightarrow>
                       (case load_state_dict combined_model file2 of
                          Inl e \<Rightarrow> Inl e
                        | Inr combined_model' \<Rightarrow>
                            Inr \<lparr>model = combined_model', optim = optimizer,
                                 rng = seed0 env, writes = []\<rparr>))))"

text \<open>The whole script: set up, train for five epochs, save the extractor.\<close>

definition main :: "'img kernels \<Rightarrow> 'img script_env \<Rightarrow> error + (world \<times> epoch_report list)" where
  "main K env =
     (case build_loaders env of
        Inl e \<Rightarrow> Inl e
      | Inr loaders \<Rightarrow>
          (case build_model env of
             Inl e \<Rightarrow> Inl e
           | Inr w0 \<Rightarrow>
               (case train K w0 (fst loaders) (snd loaders) 5 of
                  Inl e \<Rightarrow> Inl e
                | Inr r \<Rightarrow>
                    Inr ((fst r)\<lparr>writes := writes (fst r)
                                    @ [(''model.pth'', effnet_state_dict (model (fst r)))]\<rparr>,
                         snd r))))"

section \<open>Definitions for stating the properties\<close>

text \<open>The value of \<^verbatim>\<open>best_val_loss\<close> after a sequence of validation losses.\<close>

fun best_after :: "fl \<Rightarrow> fl list \<Rightarrow> fl" where
  "best_after b [] = b"
| "best_after b (v # vs) = best_after (if fl_less v b then v else b) vs"

definition reports_of :: "error + (world \<times> epoch_report list) \<Rightarrow> epoch_report list" where
  "reports_of r = (case r of Inl e \<Rightarrow> [] | Inr x \<Rightarrow> snd x)"

subsection \<open>A small instance\<close>

text \<open>
  One image per data set, an extractor with a one-element feature map, a recurrent
  classifier of hidden width 1, and simple stand-ins for the numeric routines: the loss
  is NaN until the first logit exceeds 1, and every update adds 1 to a parameter.
\<close>

definition toy_kernels :: "unit kernels" where
  "toy_kernels =
     \<lparr>extract_features_k =
        (\<lambda>ps bs tr x. \<lparr>shape = [length x, 1, 1, 1], data = replicate (length x) (Fin 1)\<rparr>),
      update_buffers_k = (\<lambda>ps bs x. bs),
      sigmoid_k = (\<lambda>v. Fin 0),
      tanh_k = (\<lambda>v. Fin 0),
      cross_entropy_k = (\<lambda>t labels. if fl_less (Fin 1) (hd (data t)) then Fin 1 else NaN),
      grad_k = (\<lambda>name sd x labels seed. zeros [1]),
      adam_k = (\<lambda>rate st v g. (v\<lparr>data := map (\<lambda>x. fl_add x (Fin 1)) (data v)\<rparr>,
                                 \<lparr>step_count = 1, exp_avg = g, exp_avg_sq = g\<rparr>)),
      rand_keep_k = (\<lambda>seed i. True),
      rand_key_k = (\<lambda>seed i. i),
      zero_grad_to_none_k = True\<rparr>"

definition toy_param :: "nat list \<Rightarrow> param" where
  "toy_param sh = \<lparr>pvalue = zeros sh, pgrad = None\<rparr>"

definition toy_model :: CombinedModel where
  "toy_model =
     \<lparr>effnet_params = [(''_conv_stem.weight'', toy_param [1])],
      effnet_buffers = [],
      lstm_model = \<lparr>input_size = 1, hidden_size = 1, num_layers = 1, num_classes = 2,
                     weight_ih_l0 = toy_param [4, 1], weight_hh_l0 = toy_param [4, 1],
                     bias_ih_l0 = toy_param [4], bias_hh_l0 = toy_param [4],
                     fc_weight = toy_param [2, 1], fc_bias = toy_param [2]\<rparr>,
      training = True\<rparr>"

definition toy_world :: world where
  "toy_world = \<lparr>model = toy_model, optim = Adam toy_model (1 / 1000), rng = 0, writes = []\<rparr>"

definition toy_train_loader :: "unit loader" where
  "toy_train_loader = DataLoader [((), 0)] 32 True"

definition toy_val_loader :: "unit loader" where
  "toy_val_loader = DataLoader [((), 1)] 32 False"

definition final_hidden :: "'img kernels \<Rightarrow> LSTMModel \<Rightarrow> tensor \<Rightarrow> nat \<Rightarrow> fl list" where
  "final_hidden K m x b =
     fst (foldl (\<lambda>hc xt. lstm_cell K m xt hc)
            (replicate (hidden_size m) (Fin 0), replicate (hidden_size m) (Fin 0))
            (steps_of x (shape x ! 1) (shape x ! 2) b))"

definition final_states :: "'img kernels \<Rightarrow> LSTMModel \<Rightarrow> tensor \<Rightarrow> tensor" where
  "final_states K m x =
     \<lparr>shape = [shape x ! 0, hidden_size m],
      data = concat (map (final_hidden K m x) [0..<shape x ! 0])\<rparr>"

text \<open>The sum of a list of floats.\<close>

definition fl_sum :: "fl list \<Rightarrow> fl" where
  "fl_sum xs = foldr fl_add xs (Fin 0)"

text \<open>
  Over the trace of a batch loop: each batch's loss times the batch's size, the number
  of samples seen, the predicted classes of a batch and the number of samples whose
  predicted class is their label.
\<close>

definition weighted_losses :: "(fl \<times> var \<times> ('img list \<times> nat list)) list \<Rightarrow> fl list" where
  "weighted_losses tr = map (\<lambda>e. fl_mul (fst e) (Fin (real (length (fst (snd (snd e))))))) tr"

definition samples_seen :: "(fl \<times> var \<times> ('img list \<times> nat list)) list \<Rightarrow> nat" where
  "samples_seen tr = sum_list (map (\<lambda>e. length (snd (snd (snd e)))) tr)"

definition predicted_of :: "var \<Rightarrow> nat list" where
  "predicted_of outputs = (case torch_max_indices (val outputs) of Inl e \<Rightarrow> [] | Inr ps \<Rightarrow> ps)"

definition matches :: "(fl \<times> var \<times> ('img list \<times> nat list)) list \<Rightarrow> nat" where
  "matches tr = sum_list (map (\<lambda>e. count_eq (predicted_of (fst (snd e))) (snd (snd (snd e)))) tr)"

text \<open>The traces of the batch loops of one epoch of \<^verbatim>\<open>train\<close> and of \<^verbatim>\<open>validate\<close>.\<close>

definition train_trace ::
  "'img kernels \<Rightarrow> 'img loader \<Rightarrow> world \<Rightarrow> (fl \<times> var \<times> ('img list \<times> nat list)) list" where
  "train_trace K train_loader w =
     batch_trace (train_step K) (loader_batches K train_loader (rng w))
       (w\<lparr>model := (model w)\<lparr>training := True\<rparr>, rng := loader_seed train_loader (rng w)\<rparr>)"

definition validate_trace ::
  "'img kernels \<Rightarrow> 'img loader \<Rightarrow> world \<Rightarrow> (fl \<times> var \<times> ('img list \<times> nat list)) list" where
  "validate_trace K val_loader w =
     batch_trace (validate_step K) (loader_batches K val_loader (rng w))
       (w\<lparr>model := (model w)\<lparr>training := False\<rparr>, rng := loader_seed val_loader (rng w)\<rparr>)"

text \<open>No parameter of the extractor holds a gradient.\<close>

definition no_effnet_grad :: "CombinedModel \<Rightarrow> bool" where
  "no_effnet_grad m = list_all (\<lambda>kp. pgrad (snd kp) = None) (effnet_params m)"

section \<open>The best-checkpoint policy\<close>

lemma fl_less_trans: "fl_less a b \<Longrightarrow> fl_less b c \<Longrightarrow> fl_less a c"
  by (cases a; cases b; cases c) auto

lemma fl_less_irrefl: "\<not> fl_less a a"
  by (cases a) auto

lemma fl_less_not_nan: "fl_less a b \<Longrightarrow> \<not> is_nan a \<and> \<not> is_nan b"
  by (cases a; cases b) auto

lemma fl_less_le_trans:
  "fl_less a b \<Longrightarrow> \<not> fl_less c b \<Longrightarrow> \<not> is_nan c \<Longrightarrow> fl_less a c"
  by (cases a; cases b; cases c) auto

lemma best_after_not_nan: "\<not> is_nan b \<Longrightarrow> \<not> is_nan (best_after b vs)"
  by (induction vs arbitrary: b) (auto dest: fl_less_not_nan)

lemma fl_less_best_after:
  "\<not> is_nan b \<Longrightarrow>
   fl_less v (best_after b vs) \<longleftrightarrow>
     fl_less v b \<and> (\<forall>u\<in>set vs. \<not> is_nan u \<longrightarrow> fl_less v u)"
proof (induction vs arbitrary: b)
  case Nil
  then show ?case by simp
next
  case (Cons u us)
  show ?case
  proof (cases "fl_less u b")
    case True
    then have nn: "\<not> is_nan u" by (simp add: fl_less_not_nan)
    from Cons.IH [OF nn] True nn show ?thesis
      by (auto dest: fl_less_trans)
  next
    case False
    from Cons.IH [OF Cons.prems] False show ?thesis
      by (auto dest: fl_less_le_trans)
  qed
qed

lemma best_after_append: "best_after b (xs @ ys) = best_after (best_after b xs) ys"
  by (induction xs arbitrary: b) auto

lemma train_step_writes:
  "train_step K w b = Inr r \<Longrightarrow> writes (fst r) = writes w"
  by (auto simp: train_step_def Let_def split: sum.splits)

lemma validate_step_writes:
  "validate_step K w b = Inr r \<Longrightarrow> writes (fst r) = writes w"
  by (auto simp: validate_step_def Let_def split: sum.splits)

lemma batch_loop_writes:
  assumes "\<And>w b r. step w b = Inr r \<Longrightarrow> writes (fst r) = writes w"
  shows "batch_loop step bs ws = Inr ws' \<Longrightarrow> writes (fst ws') = writes (fst ws)"
proof (induction bs arbitrary: ws)
  case Nil
  then show ?case by simp
next
  case (Cons b bs)
  from Cons.prems obtain r st' where
    r: "step (fst ws) b = Inr r" and
    rest: "batch_loop step bs (fst r, st') = Inr ws'"
    by (auto split: sum.splits)
  from Cons.IH [OF rest] assms [OF r] show ?case by simp
qed

lemma validate_writes:
  assumes "validate K w vl = Inr r"
  shows "writes (fst r) = writes w"
proof -
  from assms obtain ws where
    l: "batch_loop (validate_step K) (loader_batches K vl (rng w))
          (w\<lparr>model := (model w)\<lparr>training := False\<rparr>, rng := loader_seed vl (rng w)\<rparr>, stats0)
        = Inr ws" and r: "fst r = fst ws"
    by (auto simp: validate_def Let_def split: sum.splits)
  from batch_loop_writes [of "validate_step K", OF validate_step_writes l] r
  show ?thesis by simp
qed

lemma train_epoch_checkpoint:
  assumes "train_epoch K trl vl w best = Inr r"
  shows "fst (snd r) = (if fl_less (val_loss (snd (snd r))) best then val_loss (snd (snd r)) else best)"
    and "written (snd (snd r)) =
           (if fl_less (val_loss (snd (snd r))) best
            then [(''model_best.pth'', state_dict (model (fst r)))] else [])"
    and "writes (fst r) = writes w @ written (snd (snd r))"
proof -
  from assms obtain ws eloss eacc rv where
    l: "batch_loop (train_step K) (loader_batches K trl (rng w))
          (w\<lparr>model := (model w)\<lparr>training := True\<rparr>, rng := loader_seed trl (rng w)\<rparr>, stats0)
        = Inr ws" and
    v: "validate K (fst ws) vl = Inr rv" and
    r: "r = (fst (checkpoint (fst rv) best (fst (snd rv))),
             fst (snd (checkpoint (fst rv) best (fst (snd rv)))),
             \<lparr>epoch_loss = eloss, epoch_accuracy = eacc, val_loss = fst (snd rv),
              val_accuracy = snd (snd rv),
              written = snd (snd (checkpoint (fst rv) best (fst (snd rv))))\<rparr>)"
    unfolding train_epoch_def Let_def by (auto split: sum.splits)
  have w1: "writes (fst ws) = writes w"
    using batch_loop_writes [of "train_step K", OF train_step_writes l] by simp
  have w2: "writes (fst rv) = writes w"
    using validate_writes [OF v] w1 by simp
  show "fst (snd r) = (if fl_less (val_loss (snd (snd r))) best then val_loss (snd (snd r)) else best)"
    using r by (simp add: checkpoint_def)
  show "written (snd (snd r)) =
           (if fl_less (val_loss (snd (snd r))) best
            then [(''model_best.pth'', state_dict (model (fst r)))] else [])"
    using r by (simp add: checkpoint_def)
  show "writes (fst r) = writes w @ written (snd (snd r))"
    using r w2 by (simp add: checkpoint_def)
qed

lemma train_epochs_reports:
  assumes "train_epochs K trl vl es w b = Inr r"
  shows "length (snd r) = length es
       \<and> writes (fst r) = writes w @ concat (map written (snd r))
       \<and> (\<forall>i<length es.
            map fst (written (snd r ! i)) =
              (if fl_less (val_loss (snd r ! i)) (best_after b (map val_loss (take i (snd r))))
               then [''model_best.pth''] else []))"
  using assms
proof (induction es arbitrary: w b r)
  case Nil
  then show ?case by auto
next
  case (Cons e es)
  from Cons.prems obtain r1 r2 where
    r1: "train_epoch K trl vl w b = Inr r1" and
    r2: "train_epochs K trl vl es (fst r1) (fst (snd r1)) = Inr r2" and
    r: "r = (fst r2, snd (snd r1) # snd r2)"
    by (auto split: sum.splits)
  note ck = train_epoch_checkpoint [OF r1]
  note ih = Cons.IH [OF r2]
  have "\<forall>i<length (e # es).
            map fst (written (snd r ! i)) =
              (if fl_less (val_loss (snd r ! i)) (best_after b (map val_loss (take i (snd r))))
               then [''model_best.pth''] else [])"
  proof (intro allI impI)
    fix i assume i: "i < length (e # es)"
    show "map fst (written (snd r ! i)) =
              (if fl_less (val_loss (snd r ! i)) (best_after b (map val_loss (take i (snd r))))
               then [''model_best.pth''] else [])"
    proof (cases i)
      case 0
      then show ?thesis using ck r by simp
    next
      case (Suc k)
      then have "k < length es" using i by simp
      with ih have "map fst (written (snd r2 ! k)) =
              (if fl_less (val_loss (snd r2 ! k))
                    (best_after (fst (snd r1)) (map val_loss (take k (snd r2))))
               then [''model_best.pth''] else [])"
        by blast
      moreover have "best_after b (map val_loss (take i (snd r))) =
          best_after (fst (snd r1)) (map val_loss (take k (snd r2)))"
        unfolding ck(1) using Suc r by simp
      moreover have "snd r ! i = snd r2 ! k" using Suc r by simp
      ultimately show ?thesis by simp
    qed
  qed
  with ih ck r show ?case by simp
qed

text \<open>
  C1, as the code has it: in a run of \<^verbatim>\<open>train\<close>, epoch \<open>i\<close> writes a file exactly
  when its validation loss is strictly below \<open>+\<infinity>\<close> and strictly below the validation
  loss of every earlier epoch that is not NaN. The file is then \<^verbatim>\<open>model_best.pth\<close>
  and the only one written; an epoch whose loss equals an earlier epoch's writes
  nothing; the files written by the run are those of its epochs, in order.
\<close>

theorem train_saves_iff_below_best:
  assumes "train K w trl vl n = Inr (w', reps)" and "i < n"
  shows "(written (reps ! i) \<noteq> [] \<longleftrightarrow>
            fl_less (val_loss (reps ! i)) PInf \<and>
            (\<forall>j<i. \<not> is_nan (val_loss (reps ! j)) \<longrightarrow>
                   fl_less (val_loss (reps ! i)) (val_loss (reps ! j))))
       \<and> (written (reps ! i) = [] \<or>
            (\<exists>sd. written (reps ! i) = [(''model_best.pth'', sd)]))
       \<and> (\<forall>j<i. val_loss (reps ! j) = val_loss (reps ! i) \<longrightarrow> written (reps ! i) = [])
       \<and> length reps = n
       \<and> writes w' = writes w @ concat (map written reps)"
proof -
  from assms(1) have te: "train_epochs K trl vl [0..<n] w PInf = Inr (w', reps)"
    by (simp add: train_def)
  note R = train_epochs_reports [OF te]
  from R have len: "length reps = n" by simp
  from R assms(2) have wr: "map fst (written (reps ! i)) =
      (if fl_less (val_loss (reps ! i)) (best_after PInf (map val_loss (take i reps)))
       then [''model_best.pth''] else [])"
    by simp
  have "i \<le> length reps" using len assms(2) by simp
  then have set_take: "set (map val_loss (take i reps)) = (\<lambda>j. val_loss (reps ! j)) ` {0..<i}"
    by (simp add: nth_image [symmetric] image_image)
  have iff: "fl_less (val_loss (reps ! i)) (best_after PInf (map val_loss (take i reps))) \<longleftrightarrow>
      fl_less (val_loss (reps ! i)) PInf \<and>
      (\<forall>j<i. \<not> is_nan (val_loss (reps ! j)) \<longrightarrow>
             fl_less (val_loss (reps ! i)) (val_loss (reps ! j)))"
    unfolding fl_less_best_after [of PInf, simplified] set_take by auto
  have c1: "(written (reps ! i) \<noteq> [] \<longleftrightarrow>
            fl_less (val_loss (reps ! i)) PInf \<and>
            (\<forall>j<i. \<not> is_nan (val_loss (reps ! j)) \<longrightarrow>
                   fl_less (val_loss (reps ! i)) (val_loss (reps ! j))))"
  proof (cases "fl_less (val_loss (reps ! i)) (best_after PInf (map val_loss (take i reps)))")
    case True
    with wr have "written (reps ! i) \<noteq> []" by auto
    with True iff show ?thesis by blast
  next
    case False
    with wr have "written (reps ! i) = []" by simp
    with False iff show ?thesis by blast
  qed
  have c2: "written (reps ! i) = [] \<or> (\<exists>sd. written (reps ! i) = [(''model_best.pth'', sd)])"
  proof (cases "fl_less (val_loss (reps ! i)) (best_after PInf (map val_loss (take i reps)))")
    case True
    with wr have "map fst (written (reps ! i)) = [''model_best.pth'']" by simp
    then show ?thesis by (cases "written (reps ! i)") auto
  next
    case False
    with wr show ?thesis by simp
  qed
  have c3: "\<forall>j<i. val_loss (reps ! j) = val_loss (reps ! i) \<longrightarrow> written (reps ! i) = []"
  proof (intro allI impI)
    fix j assume j: "j < i" and eq: "val_loss (reps ! j) = val_loss (reps ! i)"
    show "written (reps ! i) = []"
    proof (rule ccontr)
      assume "written (reps ! i) \<noteq> []"
      with c1 have lt: "fl_less (val_loss (reps ! i)) PInf" and
        al: "\<forall>j<i. \<not> is_nan (val_loss (reps ! j)) \<longrightarrow>
                   fl_less (val_loss (reps ! i)) (val_loss (reps ! j))"
        by blast+
      from lt have "\<not> is_nan (val_loss (reps ! i))" by (simp add: fl_less_not_nan)
      with al j eq have "fl_less (val_loss (reps ! i)) (val_loss (reps ! i))" by metis
      then show False by (simp add: fl_less_irrefl)
    qed
  qed
  from c1 c2 c3 len R show ?thesis by simp
qed


theorem train_saves_iff_below_best_witness:
  "written (reports_of (train toy_kernels toy_world toy_train_loader toy_val_loader 2) ! 1) \<noteq> []
   \<and> fl_less (val_loss (reports_of (train toy_kernels toy_world toy_train_loader toy_val_loader 2) ! 1)) PInf
   \<and> length (reports_of (train toy_kernels toy_world toy_train_loader toy_val_loader 2)) = 2"
proof -
  have ok: "\<not> isl (train toy_kernels toy_world toy_train_loader toy_val_loader 2)"
    by code_simp
  then have run: "train toy_kernels toy_world toy_train_loader toy_val_loader 2 =
      Inr (fst (projr (train toy_kernels toy_world toy_train_loader toy_val_loader 2)),
           reports_of (train toy_kernels toy_world toy_train_loader toy_val_loader 2))"
    by (cases "train toy_kernels toy_world toy_train_loader toy_val_loader 2")
       (simp_all add: reports_of_def)
  have saved: "written (reports_of (train toy_kernels toy_world toy_train_loader toy_val_loader 2) ! 1) \<noteq> []"
    by code_simp
  from train_saves_iff_below_best [OF run, of 1] saved show ?thesis
    by simp
qed

text \<open>
  C1 as it is worded fails after a NaN: in the small instance the first epoch's
  validation loss is NaN and the second epoch's is 1. The second epoch writes
  \<^verbatim>\<open>model_best.pth\<close> although its loss is not strictly less than the first epoch's
  (no number is less than NaN).
\<close>

theorem checkpoint_after_nan_counterexample:
  "map val_loss (reports_of (train toy_kernels toy_world toy_train_loader toy_val_loader 2))
     = [NaN, Fin 1]
   \<and> map (map fst \<circ> written)
         (reports_of (train toy_kernels toy_world toy_train_loader toy_val_loader 2))
     = [[], [''model_best.pth'']]
   \<and> \<not> fl_less
         (val_loss (reports_of (train toy_kernels toy_world toy_train_loader toy_val_loader 2) ! 1))
         (val_loss (reports_of (train toy_kernels toy_world toy_train_loader toy_val_loader 2) ! 0))"
  by code_simp


lemma train_epochs_best_bound:
  assumes "train_epochs K trl vl es w b = Inr r" and "j < length (snd r)"
    and "written (snd r ! j) \<noteq> []"
  shows "fl_less (val_loss (snd r ! j)) b"
proof -
  note R = train_epochs_reports [OF assms(1)]
  from R assms(2) have jl: "j < length es" by simp
  with R have "map fst (written (snd r ! j)) =
      (if fl_less (val_loss (snd r ! j)) (best_after b (map val_loss (take j (snd r))))
       then [''model_best.pth''] else [])" by blast
  with assms(3) have lt: "fl_less (val_loss (snd r ! j)) (best_after b (map val_loss (take j (snd r))))"
    by (auto split: if_splits)
  show ?thesis
  proof (cases "is_nan b")
    case True
    have "best_after b vs = b \<or> fl_less (best_after b vs) b" for vs
    proof (induction vs rule: rev_induct)
      case Nil
      then show ?case by simp
    next
      case (snoc x xs)
      then show ?case by (auto simp: best_after_append dest: fl_less_trans)
    qed
    with True lt show ?thesis
      by (metis fl_less_not_nan fl_less_trans)
  next
    case False
    with lt show ?thesis by (simp add: fl_less_best_after)
  qed
qed

text \<open>
  C3: when an epoch of \<^verbatim>\<open>train\<close> ends with a NaN validation loss, the comparison
  with \<^verbatim>\<open>best_val_loss\<close> is false: \<^verbatim>\<open>best_val_loss\<close> keeps its value and no
  file is written. The loop goes on with the remaining epochs from the state the epoch
  left, and an error, if any, is one of theirs. An epoch after it writes a checkpoint
  only when its validation loss is not NaN and is strictly below the
  \<^verbatim>\<open>best_val_loss\<close> the NaN epoch left unchanged.
\<close>

theorem nan_validation_loss_skips_checkpoint:
  assumes "train_epoch K trl vl w best = Inr r" and "is_nan (val_loss (snd (snd r)))"
  shows "fst (snd r) = best
       \<and> written (snd (snd r)) = []
       \<and> writes (fst r) = writes w
       \<and> train_epochs K trl vl (e # es) w best =
           (case train_epochs K trl vl es (fst r) best of
              Inl err \<Rightarrow> Inl err
            | Inr r' \<Rightarrow> Inr (fst r', snd (snd r) # snd r'))
       \<and> (\<forall>r' j. train_epochs K trl vl es (fst r) best = Inr r' \<longrightarrow> j < length (snd r') \<longrightarrow>
              written (snd r' ! j) \<noteq> [] \<longrightarrow>
              \<not> is_nan (val_loss (snd r' ! j)) \<and> fl_less (val_loss (snd r' ! j)) best)"
proof -
  have nl: "\<not> fl_less (val_loss (snd (snd r))) best"
    using assms(2) fl_less_not_nan by blast
  note ck = train_epoch_checkpoint [OF assms(1)]
  from ck(1) nl have b: "fst (snd r) = best" by simp
  from ck(2) nl have wr: "written (snd (snd r)) = []" by simp
  from ck(3) wr have ws: "writes (fst r) = writes w" by simp
  have cont: "train_epochs K trl vl (e # es) w best =
           (case train_epochs K trl vl es (fst r) best of
              Inl err \<Rightarrow> Inl err
            | Inr r' \<Rightarrow> Inr (fst r', snd (snd r) # snd r'))"
    using assms(1) b by simp
  have later: "\<forall>r' j. train_epochs K trl vl es (fst r) best = Inr r' \<longrightarrow> j < length (snd r') \<longrightarrow>
              written (snd r' ! j) \<noteq> [] \<longrightarrow>
              \<not> is_nan (val_loss (snd r' ! j)) \<and> fl_less (val_loss (snd r' ! j)) best"
    using train_epochs_best_bound fl_less_not_nan by blast
  from b wr ws cont later show ?thesis by blast
qed

theorem nan_validation_loss_skips_checkpoint_witness:
  "is_nan (val_loss (snd (snd (projr
      (train_epoch toy_kernels toy_train_loader toy_val_loader toy_world PInf)))))
   \<and> fst (snd (projr (train_epoch toy_kernels toy_train_loader toy_val_loader toy_world PInf)))
       = PInf
   \<and> written (snd (snd (projr
      (train_epoch toy_kernels toy_train_loader toy_val_loader toy_world PInf)))) = []
   \<and> writes (fst (projr
      (train_epoch toy_kernels toy_train_loader toy_val_loader toy_world PInf))) = []"
proof -
  have ok: "\<not> isl (train_epoch toy_kernels toy_train_loader toy_val_loader toy_world PInf)"
    by code_simp
  then have run: "train_epoch toy_kernels toy_train_loader toy_val_loader toy_world PInf =
      Inr (projr (train_epoch toy_kernels toy_train_loader toy_val_loader toy_world PInf))"
    by simp
  have nan: "is_nan (val_loss (snd (snd (projr
      (train_epoch toy_kernels toy_train_loader toy_val_loader toy_world PInf)))))"
    by code_simp
  have w0: "writes toy_world = []" by (simp add: toy_world_def)
  from nan_validation_loss_skips_checkpoint [OF run nan] nan w0 show ?thesis
    by simp
qed

lemma length_concat_uniform:
  "(\<And>k. k < n \<Longrightarrow> length (f k) = m) \<Longrightarrow> length (concat (map f [0..<n])) = n * m"
  by (induction n) simp_all

lemma nth_concat_uniform:
  "(\<And>k. k < n \<Longrightarrow> length (f k) = m) \<Longrightarrow> i < n \<Longrightarrow> j < m \<Longrightarrow>
   concat (map f [0..<n]) ! (i * m + j) = f i ! j"
proof (induction n)
  case 0
  then show ?case by simp
next
  case (Suc n)
  have len: "length (concat (map f [0..<n])) = n * m"
    using Suc.prems(1) by (simp add: length_concat_uniform)
  show ?case
  proof (cases "i < n")
    case True
    then have "Suc i \<le> n" by simp
    then have "Suc i * m \<le> n * m" by (rule mult_le_mono1)
    with Suc.prems(3) have "i * m + j < n * m" by simp
    with len True Suc show ?thesis by (simp add: nth_append)
  next
    case False
    with Suc.prems(2) have "i = n" by simp
    with len show ?thesis by (simp add: nth_append)
  qed
qed

lemma drop_concat_uniform:
  "(\<And>k. k < n \<Longrightarrow> length (f k) = m) \<Longrightarrow> i < n \<Longrightarrow> k \<le> m \<Longrightarrow>
   drop (i * m + k) (concat (map f [0..<n])) = drop k (f i) @ concat (map f [Suc i..<n])"
proof (induction n)
  case 0
  then show ?case by simp
next
  case (Suc n)
  have len: "length (concat (map f [0..<n])) = n * m"
    using Suc.prems(1) by (simp add: length_concat_uniform)
  show ?case
  proof (cases "i < n")
    case True
    then have "Suc i \<le> n" by simp
    then have "Suc i * m \<le> n * m" by (rule mult_le_mono1)
    with Suc.prems(3) have le: "i * m + k \<le> n * m" by simp
    from True have spl: "[Suc i..<Suc n] = [Suc i..<n] @ [n]" by simp
    have "drop (i * m + k) (concat (map f [0..<n])) =
        drop k (f i) @ concat (map f [Suc i..<n])"
      using Suc.IH [OF _ True Suc.prems(3)] Suc.prems(1) by simp
    moreover have "[0..<Suc n] = [0..<n] @ [n]" by simp
    ultimately show ?thesis using le len
      by (simp add: spl del: upt_Suc)
  next
    case False
    with Suc.prems(2) have "i = n" by simp
    with len show ?thesis by simp
  qed
qed

lemma take_drop_concat_uniform:
  assumes "\<And>k. k < n \<Longrightarrow> length (f k) = m" and "i < n" and "k + l \<le> m"
  shows "take l (drop (i * m + k) (concat (map f [0..<n]))) = take l (drop k (f i))"
proof -
  from assms(3) have "k \<le> m" by simp
  have "drop (i * m + k) (concat (map f [0..<n])) =
      drop k (f i) @ concat (map f [Suc i..<n])"
    using assms(1) assms(2) \<open>k \<le> m\<close> by (rule drop_concat_uniform)
  moreover have "length (f i) = m" using assms by simp
  ultimately show ?thesis using assms(3) by simp
qed

lemma chunk_concat_uniform:
  assumes "\<And>k. k < n \<Longrightarrow> length (f k) = m" and "i < n"
  shows "take m (drop (i * m) (concat (map f [0..<n]))) = f i"
proof -
  have "take m (drop (i * m + 0) (concat (map f [0..<n]))) = take m (drop 0 (f i))"
    using assms by (intro take_drop_concat_uniform) simp_all
  with assms show ?thesis by simp
qed

lemma chunk_concat_list:
  assumes "\<And>x. x \<in> set xss \<Longrightarrow> length x = m" and "i < length xss"
  shows "take m (drop (i * m) (concat xss)) = xss ! i"
proof -
  have "take m (drop (i * m) (concat (map ((!) xss) [0..<length xss]))) = xss ! i"
    using assms by (intro chunk_concat_uniform) simp_all
  then show ?thesis by (simp add: map_nth)
qed

lemma length_concat_list:
  "(\<And>x. x \<in> set xss \<Longrightarrow> length x = m) \<Longrightarrow> length (concat xss) = length xss * m"
  by (induction xss) simp_all

lemma permute_0231_shape:
  assumes "shape t = [B, C, H, W]"
  shows "\<exists>p. permute_0231 t = Inr p \<and> shape p = [B, H, W, C]
           \<and> length (data p) = B * (H * (W * C))
           \<and> (\<forall>b<B. \<forall>h<H. \<forall>w<W. \<forall>c<C. at4 p b h w c = at4 t b c h w)"
proof -
  define g where "g = (\<lambda>b h w. map (\<lambda>c. data t ! (((b * C + c) * H + h) * W + w)) [0..<C])"
  define l2 where "l2 = (\<lambda>b h. concat (map (g b h) [0..<W]))"
  define l1 where "l1 = (\<lambda>b. concat (map (l2 b) [0..<H]))"
  define p where "p = \<lparr>shape = [B, H, W, C], data = concat (map l1 [0..<B])\<rparr>"
  have pe: "permute_0231 t = Inr p"
    using assms by (simp add: permute_0231_def p_def l1_def l2_def g_def)
  have lg: "length (g b h w) = C" for b h w by (simp add: g_def)
  have ll2: "length (l2 b h) = W * C" for b h
    unfolding l2_def by (rule length_concat_uniform) (simp add: lg)
  have ll1: "length (l1 b) = H * (W * C)" for b
    unfolding l1_def by (rule length_concat_uniform) (simp add: ll2)
  have len: "length (data p) = B * (H * (W * C))"
    unfolding p_def by (simp add: length_concat_uniform ll1)
  have el: "at4 p b h w c = at4 t b c h w" if "b < B" "h < H" "w < W" "c < C" for b h w c
  proof -
    have i1: "w * C + c < W * C"
    proof -
      from that have "Suc w \<le> W" by simp
      then have "Suc w * C \<le> W * C" by (rule mult_le_mono1)
      with that show ?thesis by simp
    qed
    have i2: "h * (W * C) + (w * C + c) < H * (W * C)"
    proof -
      from that have "Suc h \<le> H" by simp
      then have "Suc h * (W * C) \<le> H * (W * C)" by (rule mult_le_mono1)
      with i1 show ?thesis by simp
    qed
    have "at4 p b h w c = data p ! (b * (H * (W * C)) + (h * (W * C) + (w * C + c)))"
      by (simp add: at4_def p_def algebra_simps)
    also have "\<dots> = l1 b ! (h * (W * C) + (w * C + c))"
      unfolding p_def using that i2 by (simp add: nth_concat_uniform ll1)
    also have "\<dots> = l2 b h ! (w * C + c)"
      unfolding l1_def using that i1 by (simp add: nth_concat_uniform ll2)
    also have "\<dots> = g b h w ! c"
      unfolding l2_def using that by (simp add: nth_concat_uniform lg)
    also have "\<dots> = at4 t b c h w"
      using that assms by (simp add: g_def at4_def)
    finally show ?thesis .
  qed
  from pe len el show ?thesis by (auto simp: p_def)
qed

lemma view_seq_shape:
  assumes "shape p = [B, H, W, C]" and "0 < B" and "0 < H" and "0 < W"
  shows "view_seq p = Inr \<lparr>shape = [B, H * W, C], data = data p\<rparr>"
proof -
  have k: "B * (H * W) \<noteq> 0" using assms by simp
  have n: "numel p = B * (H * W) * C" using assms by (simp add: numel_def)
  from k n assms(1) show ?thesis
    by (simp add: view_seq_def Let_def)
qed

lemma view_seq_success:
  assumes "view_seq p = Inr s" and "shape p = [B, H, W, C]"
  shows "0 < B \<and> 0 < H \<and> 0 < W"
  using assms by (auto simp: view_seq_def Let_def split: if_splits)

lemma at3_view:
  assumes "shape p = [B, H, W, C]"
  shows "at3 \<lparr>shape = [B, H * W, C], data = data p\<rparr> b (h * W + w) c = at4 p b h w c"
  using assms by (simp add: at3_def at4_def algebra_simps)

lemma length_lstm_run [simp]: "length (lstm_run K m xs hc) = length xs"
  by (induction xs arbitrary: hc) (simp_all add: Let_def)

lemma lstm_cell_length: "length (fst (lstm_cell K m x hc)) = hidden_size m"
  by (simp add: lstm_cell_def Let_def)

lemma lstm_run_lengths: "h \<in> set (lstm_run K m xs hc) \<Longrightarrow> length h = hidden_size m"
proof (induction xs arbitrary: hc)
  case Nil
  then show ?case by simp
next
  case (Cons x xs)
  from Cons.prems have "h = fst (lstm_cell K m x hc) \<or> h \<in> set (lstm_run K m xs (lstm_cell K m x hc))"
    by (simp add: Let_def)
  then show ?case
  proof
    assume "h = fst (lstm_cell K m x hc)"
    then show ?thesis by (simp add: lstm_cell_length)
  next
    assume "h \<in> set (lstm_run K m xs (lstm_cell K m x hc))"
    then show ?thesis by (rule Cons.IH)
  qed
qed

lemma lstm_run_last:
  "xs \<noteq> [] \<Longrightarrow>
   last (lstm_run K m xs hc) = fst (foldl (\<lambda>hc xt. lstm_cell K m xt hc) hc xs)"
proof (induction xs arbitrary: hc)
  case Nil
  then show ?case by simp
next
  case (Cons x xs)
  show ?case
  proof (cases xs)
    case Nil
    then show ?thesis by (simp add: Let_def)
  next
    case (Cons y ys)
    then have "xs \<noteq> []" by simp
    from Cons.IH [OF this] Cons show ?thesis by (simp add: Let_def)
  qed
qed

lemma row_zeros:
  assumes "b < B"
  shows "row (zeros [1, B, n]) n b = replicate n (Fin 0)"
proof -
  from assms have "Suc b \<le> B" by simp
  then have "Suc b * n \<le> B * n" by (rule mult_le_mono1)
  then have "n \<le> B * n - b * n" by simp
  then show ?thesis by (simp add: row_def zeros_def min_def)
qed

lemma row_zeros_Suc:
  "b < B \<Longrightarrow> row (zeros [Suc 0, B, n]) n b = replicate n (Fin 0)"
  using row_zeros [of b B n] by simp

lemma select_last_lstm:
  assumes "shape x = [B, T, F]" and "F = input_size m" and "0 < T"
  shows "nn_LSTM_forward K m x (zeros [1, B, hidden_size m]) (zeros [1, B, hidden_size m])
           = Inr \<lparr>shape = [B, T, hidden_size m],
                  data = concat (map (\<lambda>b. concat (lstm_run K m (steps_of x T F b)
                           (replicate (hidden_size m) (Fin 0), replicate (hidden_size m) (Fin 0))))
                         [0..<B])\<rparr>"
    and "select_last \<lparr>shape = [B, T, hidden_size m],
                  data = concat (map (\<lambda>b. concat (lstm_run K m (steps_of x T F b)
                           (replicate (hidden_size m) (Fin 0), replicate (hidden_size m) (Fin 0))))
                         [0..<B])\<rparr>
           = Inr \<lparr>shape = [B, hidden_size m], data = concat (map (final_hidden K m x) [0..<B])\<rparr>"
proof -
  let ?n = "hidden_size m"
  let ?z = "(replicate ?n (Fin 0), replicate ?n (Fin 0))"
  let ?run = "\<lambda>b. lstm_run K m (steps_of x T F b) ?z"
  let ?G = "\<lambda>b. concat (?run b)"
  have eq: "map (\<lambda>b. concat (lstm_run K m (steps_of x T F b)
                (row (zeros [1, B, ?n]) ?n b, row (zeros [1, B, ?n]) ?n b))) [0..<B]
        = map ?G [0..<B]"
    by (rule map_cong) (simp_all add: row_zeros_Suc)
  have sz: "shape (zeros [1, B, ?n]) = [1, B, ?n]" by (simp add: zeros_def)
  have "nn_LSTM_forward K m x (zeros [1, B, ?n]) (zeros [1, B, ?n])
           = Inr \<lparr>shape = [B, T, ?n],
                  data = concat (map (\<lambda>b. concat (lstm_run K m (steps_of x T F b)
                    (row (zeros [1, B, ?n]) ?n b, row (zeros [1, B, ?n]) ?n b))) [0..<B])\<rparr>"
    unfolding nn_LSTM_forward_def sz using assms(1,2) by simp
  then show "nn_LSTM_forward K m x (zeros [1, B, ?n]) (zeros [1, B, ?n])
           = Inr \<lparr>shape = [B, T, ?n], data = concat (map ?G [0..<B])\<rparr>"
    unfolding eq .
  have lrun: "length (?run b) = T" for b by (simp add: steps_of_def)
  have lG: "length (?G b) = T * ?n" for b
    using length_concat_list [of "?run b" ?n] lstm_run_lengths lrun by metis
  have row: "step_vec \<lparr>shape = [B, T, ?n], data = concat (map ?G [0..<B])\<rparr> T ?n b (T - 1)
        = final_hidden K m x b" if "b < B" for b
  proof -
    have ne: "steps_of x T F b \<noteq> []" using assms(3) by (simp add: steps_of_def)
    have le: "(T - 1) * ?n + ?n \<le> T * ?n"
      using assms(3) by (cases T) simp_all
    have "step_vec \<lparr>shape = [B, T, ?n], data = concat (map ?G [0..<B])\<rparr> T ?n b (T - 1)
        = take ?n (drop (b * (T * ?n) + (T - 1) * ?n) (concat (map ?G [0..<B])))"
      by (simp add: step_vec_def algebra_simps)
    also have "\<dots> = take ?n (drop ((T - 1) * ?n) (?G b))"
      using lG that le by (intro take_drop_concat_uniform) simp_all
    also have "\<dots> = ?run b ! (T - 1)"
      using lstm_run_lengths lrun assms(3) by (intro chunk_concat_list) auto
    also have "\<dots> = last (?run b)"
    proof -
      have "?run b \<noteq> []" using ne by (cases "steps_of x T F b") (simp_all add: Let_def)
      then have "last (?run b) = ?run b ! (length (?run b) - 1)" by (rule last_conv_nth)
      then show ?thesis using lrun [of b] by simp
    qed
    also have "\<dots> = final_hidden K m x b"
      using ne assms(1) by (simp add: lstm_run_last final_hidden_def)
    finally show ?thesis .
  qed
  have eq2: "map (\<lambda>b. step_vec \<lparr>shape = [B, T, ?n], data = concat (map ?G [0..<B])\<rparr> T ?n b (T - 1)) [0..<B]
        = map (final_hidden K m x) [0..<B]"
    by (rule map_cong) (use row in simp_all)
  have "select_last \<lparr>shape = [B, T, ?n], data = concat (map ?G [0..<B])\<rparr>
           = Inr \<lparr>shape = [B, ?n], data = concat (map (\<lambda>b. step_vec \<lparr>shape = [B, T, ?n], data = concat (map ?G [0..<B])\<rparr> T ?n b (T - 1)) [0..<B])\<rparr>"
    using assms(3) by (simp add: select_last_def)
  then show "select_last \<lparr>shape = [B, T, ?n], data = concat (map ?G [0..<B])\<rparr>
           = Inr \<lparr>shape = [B, ?n], data = concat (map (final_hidden K m x) [0..<B])\<rparr>"
    unfolding eq2 .
qed

lemma shape_dropout [simp]: "shape (dropout tr keep t) = shape t"
  by (simp add: dropout_def)

lemma nn_Linear_forward_shape:
  assumes "shape x = [B, hidden_size m]"
  shows "\<exists>y. nn_Linear_forward m x = Inr y \<and> shape y = [B, num_classes m]
           \<and> length (data y) = B * num_classes m"
  using assms by (simp add: nn_Linear_forward_def length_concat_uniform)

lemma LSTMModel_forward_ok:
  assumes "shape (val x) = [B, T, F]" and "F = input_size m" and "0 < T"
    and "num_layers m = 1"
  shows "\<exists>y. nn_Linear_forward m (dropout tr keep (final_states K m (val x))) = Inr y
           \<and> shape y = [B, num_classes m] \<and> length (data y) = B * num_classes m
           \<and> LSTMModel_forward K ge tr keep m x
               = Inr \<lparr>val = y, leaves = (if ge then leaves x @ lstm_param_names else [])\<rparr>"
proof -
  have fs: "final_states K m (val x) =
      \<lparr>shape = [B, hidden_size m], data = concat (map (final_hidden K m (val x)) [0..<B])\<rparr>"
    using assms(1) by (simp add: final_states_def)
  have "shape (dropout tr keep (final_states K m (val x))) = [B, hidden_size m]"
    by (simp add: fs)
  from nn_Linear_forward_shape [OF this] obtain y where
    y: "nn_Linear_forward m (dropout tr keep (final_states K m (val x))) = Inr y"
       "shape y = [B, num_classes m]" "length (data y) = B * num_classes m"
    by blast
  note sl = select_last_lstm [OF assms(1) assms(2) assms(3), of K]
  have "LSTMModel_forward K ge tr keep m x
      = Inr \<lparr>val = y, leaves = (if ge then leaves x @ lstm_param_names else [])\<rparr>"
    unfolding LSTMModel_forward_def Let_def
    using assms(1) assms(4) sl y(1) by (simp add: fs)
  with y show ?thesis by blast
qed

lemma permute_0231_success:
  "permute_0231 t = Inr p \<Longrightarrow> \<exists>B C H W. shape t = [B, C, H, W]"
  by (auto simp: permute_0231_def split: list.splits)

lemma forward_logits:
  assumes "shape (val (extract_features K False m x)) = [B, C, H, W]"
    and "0 < B" and "0 < H" and "0 < W"
    and "C = input_size (lstm_model m)"
    and "num_layers (lstm_model m) = 1" and "num_classes (lstm_model m) = 2"
  shows "\<exists>y m' seed' p s.
           CombinedModel_forward K ge m seed x = Inr (y, m', seed')
         \<and> shape (val y) = [B, 2] \<and> length (data (val y)) = B * 2
         \<and> permute_0231 (val (extract_features K False m x)) = Inr p
         \<and> view_seq p = Inr s \<and> shape s = [B, H * W, C]
         \<and> nn_Linear_forward (lstm_model m)
              (dropout (training m) (rand_keep_k K (seed + 1))
                 (final_states K (lstm_model m)
                    (dropout (training m) (rand_keep_k K seed) s)))
             = Inr (val y)"
proof -
  from permute_0231_shape [OF assms(1)] obtain p where
    p: "permute_0231 (val (extract_features K False m x)) = Inr p" "shape p = [B, H, W, C]"
    by blast
  define s where "s = \<lparr>shape = [B, H * W, C], data = data p\<rparr>"
  have v: "view_seq p = Inr s"
    unfolding s_def using p(2) assms(2-4) by (rule view_seq_shape)
  define x3 where "x3 = \<lparr>val = dropout (training m) (rand_keep_k K seed) s,
                           leaves = leaves (extract_features K False m x)\<rparr>"
  have sh3: "shape (val x3) = [B, H * W, C]" by (simp add: x3_def s_def)
  have T: "0 < H * W" using assms(3,4) by simp
  from LSTMModel_forward_ok [OF sh3 assms(5) T assms(6), of "training m" "rand_keep_k K (seed + 1)" K ge]
  obtain y where
    y: "nn_Linear_forward (lstm_model m)
          (dropout (training m) (rand_keep_k K (seed + 1)) (final_states K (lstm_model m) (val x3))) = Inr y"
       "shape y = [B, num_classes (lstm_model m)]"
       "length (data y) = B * num_classes (lstm_model m)"
       "LSTMModel_forward K ge (training m) (rand_keep_k K (seed + 1)) (lstm_model m) x3
          = Inr \<lparr>val = y, leaves = (if ge then leaves x3 @ lstm_param_names else [])\<rparr>"
    by blast
  have "CombinedModel_forward K ge m seed x =
      Inr (\<lparr>val = y, leaves = (if ge then leaves x3 @ lstm_param_names else [])\<rparr>,
           forward_buffers K m x, if training m then seed + 2 else seed)"
    unfolding CombinedModel_forward_def Let_def
    using p(1) v y(4) by (simp add: x3_def)
  moreover have "shape s = [B, H * W, C]" by (simp add: s_def)
  ultimately show ?thesis using y(1-3) p(1) v assms(7) by (simp add: x3_def)
qed

text \<open>
  C5: when the extractor's feature map has shape \<open>(B, C, H, W)\<close> with a non-empty batch
  and non-empty spatial axes, and \<open>C\<close> is the input width of the recurrent classifier
  the script builds (one layer, two classes), the forward pass of the combined model
  returns logits of shape \<open>(B, 2)\<close> with \<open>B * 2\<close> elements, whatever \<open>H\<close> and \<open>W\<close> are.
  The sequence given to the classifier has \<open>H * W\<close> steps, and the logits are the linear
  layer applied to the (dropped-out) hidden states after the last time step.
\<close>

theorem forward_output_shape:
  assumes "shape (val (extract_features K False m x)) = [B, C, H, W]"
    and "0 < B" and "0 < H" and "0 < W"
    and "C = input_size (lstm_model m)"
    and "num_layers (lstm_model m) = 1" and "num_classes (lstm_model m) = 2"
  shows "\<exists>y m' seed' p s.
           CombinedModel_forward K ge m seed x = Inr (y, m', seed')
         \<and> shape (val y) = [B, 2] \<and> length (data (val y)) = B * 2
         \<and> permute_0231 (val (extract_features K False m x)) = Inr p
         \<and> view_seq p = Inr s \<and> shape s = [B, H * W, C]
         \<and> nn_Linear_forward (lstm_model m)
              (dropout (training m) (rand_keep_k K (seed + 1))
                 (final_states K (lstm_model m)
                    (dropout (training m) (rand_keep_k K seed) s)))
             = Inr (val y)"
  using assms by (rule forward_logits)

text \<open>
  C2: every forward pass of the combined model that returns has gone through these
  steps in this order. The features are extracted without gradient tracking (the result
  depends on no parameter) and form a \<open>(B, C, H, W)\<close> tensor; the permutation gives
  \<open>(B, H, W, C)\<close> with element \<open>[b, h, w, c]\<close> equal to element \<open>[b, c, h, w]\<close> of the
  feature map; the view merges the two spatial axes into \<open>(B, H * W, C)\<close> and keeps the
  elements, so step \<open>h * W + w\<close> of the sequence holds the channels at \<open>(h, w)\<close>; dropout
  is applied to that sequence; the sequence classifier is run on the result, and its
  logits are what the forward pass returns.
\<close>

theorem forward_steps:
  assumes "CombinedModel_forward K ge m seed x = Inr r"
  shows "\<exists>B C H W p s.
           shape (val (extract_features K False m x)) = [B, C, H, W]
         \<and> leaves (extract_features K False m x) = []
         \<and> permute_0231 (val (extract_features K False m x)) = Inr p
         \<and> shape p = [B, H, W, C]
         \<and> view_seq p = Inr s
         \<and> shape s = [B, H * W, C] \<and> data s = data p
         \<and> (\<forall>b<B. \<forall>h<H. \<forall>w<W. \<forall>c<C.
               at4 p b h w c = at4 (val (extract_features K False m x)) b c h w
             \<and> at3 s b (h * W + w) c = at4 (val (extract_features K False m x)) b c h w)
         \<and> LSTMModel_forward K ge (training m) (rand_keep_k K (seed + 1)) (lstm_model m)
               \<lparr>val = dropout (training m) (rand_keep_k K seed) s, leaves = []\<rparr>
             = Inr (fst r)"
proof -
  let ?fm = "val (extract_features K False m x)"
  have lv: "leaves (extract_features K False m x) = []"
    by (simp add: extract_features_def)
  from assms obtain p s where
    p: "permute_0231 ?fm = Inr p" and v: "view_seq p = Inr s" and
    l: "LSTMModel_forward K ge (training m) (rand_keep_k K (seed + 1)) (lstm_model m)
          \<lparr>val = dropout (training m) (rand_keep_k K seed) s,
           leaves = leaves (extract_features K False m x)\<rparr> = Inr (fst r)"
    unfolding CombinedModel_forward_def Let_def by (auto split: sum.splits)
  from permute_0231_success [OF p] obtain B C H W where sh: "shape ?fm = [B, C, H, W]"
    by blast
  from permute_0231_shape [OF sh] p have
    ps: "shape p = [B, H, W, C]" and
    pe: "\<forall>b<B. \<forall>h<H. \<forall>w<W. \<forall>c<C. at4 p b h w c = at4 ?fm b c h w"
    by auto
  from view_seq_success [OF v ps] have pos: "0 < B" "0 < H" "0 < W" by simp_all
  from view_seq_shape [OF ps pos] v have s: "s = \<lparr>shape = [B, H * W, C], data = data p\<rparr>"
    by simp
  have se: "\<forall>b<B. \<forall>h<H. \<forall>w<W. \<forall>c<C. at3 s b (h * W + w) c = at4 ?fm b c h w"
    using pe at3_view [OF ps] s by simp
  from sh lv p ps v s pe se l show ?thesis
    by (intro exI [of _ B] exI [of _ C] exI [of _ H] exI [of _ W] exI [of _ p] exI [of _ s]) simp
qed

theorem forward_output_shape_witness:
  "shape (val (fst (projr (CombinedModel_forward toy_kernels True toy_model 0 [()])))) = [1, 2]
   \<and> length (data (val (fst (projr (CombinedModel_forward toy_kernels True toy_model 0 [()])))))
       = 2"
proof -
  have sh: "shape (val (extract_features toy_kernels False toy_model [()])) = [1, 1, 1, 1]"
    by (simp add: extract_features_def toy_kernels_def)
  have c: "1 = input_size (lstm_model toy_model)"
    and l: "num_layers (lstm_model toy_model) = 1"
    and n: "num_classes (lstm_model toy_model) = 2"
    by (simp_all add: toy_model_def)
  from forward_output_shape [OF sh _ _ _ c l n, where ge = True and seed = 0]
  show ?thesis by auto
qed

theorem forward_steps_witness:
  "LSTMModel_forward toy_kernels True True (rand_keep_k toy_kernels 1) (lstm_model toy_model)
     \<lparr>val = dropout True (rand_keep_k toy_kernels 0)
              (projr (view_seq (projr (permute_0231
                 (val (extract_features toy_kernels False toy_model [()])))))),
      leaves = []\<rparr>
   = Inr (fst (projr (CombinedModel_forward toy_kernels True toy_model 0 [()])))"
proof -
  have ok: "\<not> isl (CombinedModel_forward toy_kernels True toy_model 0 [()])"
    by code_simp
  then have run: "CombinedModel_forward toy_kernels True toy_model 0 [()] =
      Inr (projr (CombinedModel_forward toy_kernels True toy_model 0 [()]))"
    by simp
  have tr: "training toy_model = True" by (simp add: toy_model_def)
  from forward_steps [OF run] tr show ?thesis by auto
qed

lemma fl_add_assoc: "fl_add (fl_add a b) c = fl_add a (fl_add b c)"
  by (cases a; cases b; cases c) simp_all

lemma fl_add_zero_right [simp]: "fl_add a (Fin 0) = a"
  by (cases a) simp_all

lemma foldl_fl_add: "foldl fl_add a xs = fl_add a (fl_sum xs)"
  by (induction xs arbitrary: a) (simp_all add: fl_sum_def fl_add_assoc)


lemma batch_loop_stats:
  assumes "batch_loop step bs ws = Inr ws'"
  shows "map (snd \<circ> snd) (batch_trace step bs (fst ws)) = bs
       \<and> running_loss (snd ws') =
           foldl fl_add (running_loss (snd ws)) (weighted_losses (batch_trace step bs (fst ws)))
       \<and> total_samples (snd ws') =
           total_samples (snd ws) + samples_seen (batch_trace step bs (fst ws))
       \<and> correct_predictions (snd ws') =
           correct_predictions (snd ws) + matches (batch_trace step bs (fst ws))"
  using assms
proof (induction bs arbitrary: ws)
  case Nil
  then show ?case
    by (auto simp: weighted_losses_def samples_seen_def matches_def)
next
  case (Cons b bs)
  from Cons.prems obtain r st' where
    r: "step (fst ws) b = Inr r" and
    st: "batch_stats (snd ws) (fst (snd r)) (snd (snd r)) b = Inr st'" and
    rest: "batch_loop step bs (fst r, st') = Inr ws'"
    by (auto split: sum.splits)
  from st obtain ps where
    ps: "torch_max_indices (val (snd (snd r))) = Inr ps" and
    st': "st' = update_stats (snd ws) (fst (snd r)) (length (fst b)) ps (snd b)"
    by (auto simp: batch_stats_def split: sum.splits)
  have po: "predicted_of (snd (snd r)) = ps" by (simp add: predicted_of_def ps)
  from Cons.IH [OF rest] r st' po show ?case
    by (simp add: weighted_losses_def samples_seen_def matches_def update_stats_def)
qed



lemma validate_step_loss:
  "validate_step K w b = Inr r \<Longrightarrow> criterion K (snd (snd r)) (snd b) = Inr (fst (snd r))"
  by (auto simp: validate_step_def Let_def split: sum.splits)


lemma length_loader_order [simp]: "length (loader_order K ld seed) = length (dataset ld)"
  by (simp add: loader_order_def)


lemma fl_add_zero_left [simp]: "fl_add (Fin 0) a = a"
  by (cases a) simp_all







lemma forward_model:
  "CombinedModel_forward K ge m seed x = Inr r \<Longrightarrow>
   fst (snd r) = forward_buffers K m x \<and> snd (snd r) = (if training m then seed + 2 else seed)"
  unfolding CombinedModel_forward_def Let_def by (auto split: sum.splits)

lemma forward_leaves_no_grad:
  "CombinedModel_forward K False m seed x = Inr r \<Longrightarrow> leaves (fst r) = []"
  unfolding CombinedModel_forward_def LSTMModel_forward_def Let_def
  by (auto split: sum.splits list.splits)

lemma validate_step_eval:
  assumes "validate_step K w b = Inr r" and "\<not> training (model w)"
  shows "fst r = w" and "leaves (snd (snd r)) = []"
proof -
  from assms(1) obtain fr where
    f: "CombinedModel_forward K False (model w) (rng w) (fst b) = Inr fr" and
    r: "fst r = w\<lparr>model := fst (snd fr), rng := snd (snd fr)\<rparr>" "snd (snd r) = fst fr"
    unfolding validate_step_def Let_def by (auto split: sum.splits)
  from forward_model [OF f] assms(2) have "fst (snd fr) = model w" "snd (snd fr) = rng w"
    by (simp_all add: forward_buffers_def)
  with r show "fst r = w" by simp
  from forward_leaves_no_grad [OF f] r show "leaves (snd (snd r)) = []" by simp
qed

lemma batch_loop_validate_eval:
  assumes "\<not> training (model (fst ws))"
  shows "batch_loop (validate_step K) bs ws = Inr ws' \<Longrightarrow> fst ws' = fst ws"
  using assms
proof (induction bs arbitrary: ws)
  case Nil
  then show ?case by auto
next
  case (Cons b bs)
  from Cons.prems(1) obtain r st' where
    r: "validate_step K (fst ws) b = Inr r" and
    rest: "batch_loop (validate_step K) bs (fst r, st') = Inr ws'"
    by (auto split: sum.splits)
  from validate_step_eval(1) [OF r Cons.prems(2)] have e: "fst r = fst ws" .
  with Cons.prems(2) have "\<not> training (model (fst (fst r, st')))" by simp
  from Cons.IH [OF rest this] e show ?case by simp
qed

lemma batch_trace_validate_leaves:
  assumes "\<not> training (model w)"
  shows "e \<in> set (batch_trace (validate_step K) bs w) \<Longrightarrow> leaves (fst (snd e)) = []"
  using assms
proof (induction bs arbitrary: w)
  case Nil
  then show ?case by simp
next
  case (Cons b bs)
  show ?case
  proof (cases "validate_step K w b")
    case (Inl err)
    with Cons.prems show ?thesis by simp
  next
    case (Inr r)
    note ev = validate_step_eval [OF Inr Cons.prems(2)]
    from Cons.prems(1) Inr have
      "e = (fst (snd r), snd (snd r), b) \<or> e \<in> set (batch_trace (validate_step K) bs (fst r))"
      by simp
    then show ?thesis
    proof
      assume "e = (fst (snd r), snd (snd r), b)"
      with ev(2) show ?thesis by simp
    next
      assume "e \<in> set (batch_trace (validate_step K) bs (fst r))"
      moreover have "\<not> training (model (fst r))" using ev(1) Cons.prems(2) by simp
      ultimately show ?thesis by (rule Cons.IH)
    qed
  qed
qed

lemma dropout_eval [simp]: "dropout False keep t = t"
  by (simp add: dropout_def)

lemma loop_bookkeeping:
  assumes "batch_loop step bs (w, stats0) = Inr ws"
  shows "running_loss (snd ws) = fl_sum (weighted_losses (batch_trace step bs w))"
    and "correct_predictions (snd ws) = matches (batch_trace step bs w)"
    and "total_samples (snd ws) = samples_seen (batch_trace step bs w)"
  using batch_loop_stats [OF assms] by (simp_all add: foldl_fl_add stats0_def)

text \<open>
  C9: a call of \<^verbatim>\<open>validate\<close> that returns leaves the state as it was but for the
  switch to evaluation mode (and the random number generator, when the loader
  shuffles): every parameter of the model keeps its value and its gradient, the buffers
  are unchanged, dropout is the identity, and the optimizer has taken no step. Every
  forward pass ran without gradient tracking (the logits depend on no parameter). The
  loss and the accuracy are computed from the batches by the same bookkeeping as the
  epoch loss and the epoch accuracy of \<^verbatim>\<open>train\<close>.
\<close>

theorem validate_changes_no_parameter:
  assumes "validate K w vl = Inr r"
  shows "fst r = w\<lparr>model := (model w)\<lparr>training := False\<rparr>, rng := loader_seed vl (rng w)\<rparr>
       \<and> named_parameters (model (fst r)) = named_parameters (model w)
       \<and> effnet_buffers (model (fst r)) = effnet_buffers (model w)
       \<and> training (model (fst r)) = False
       \<and> (\<forall>keep t. dropout (training (model (fst r))) keep t = t)
       \<and> optim (fst r) = optim w
       \<and> (\<forall>e\<in>set (validate_trace K vl w). leaves (fst (snd e)) = [])
       \<and> float_div_int (fl_sum (weighted_losses (validate_trace K vl w)))
            (length (dataset vl)) = Inr (fst (snd r))
       \<and> int_div_int (matches (validate_trace K vl w)) (samples_seen (validate_trace K vl w))
            = Inr (snd (snd r))
       \<and> (\<forall>trl best r'. train_epoch K trl vl w best = Inr r' \<longrightarrow>
             float_div_int (fl_sum (weighted_losses (train_trace K trl w)))
                 (length (dataset trl)) = Inr (epoch_loss (snd (snd r')))
           \<and> int_div_int (matches (train_trace K trl w)) (samples_seen (train_trace K trl w))
                 = Inr (epoch_accuracy (snd (snd r'))))"
proof -
  let ?w2 = "w\<lparr>model := (model w)\<lparr>training := False\<rparr>, rng := loader_seed vl (rng w)\<rparr>"
  from assms obtain ws where
    l: "batch_loop (validate_step K) (loader_batches K vl (rng w)) (?w2, stats0) = Inr ws" and
    d: "float_div_int (running_loss (snd ws)) (length (dataset vl)) = Inr (fst (snd r))" and
    a: "int_div_int (correct_predictions (snd ws)) (total_samples (snd ws)) = Inr (snd (snd r))" and
    r: "fst r = fst ws"
    unfolding validate_def Let_def by (auto split: sum.splits)
  have ev: "\<not> training (model (fst (?w2, stats0)))" by simp
  from batch_loop_validate_eval [OF ev l] r have w': "fst r = ?w2" by simp
  have np: "named_parameters (model (fst r)) = named_parameters (model w)"
    by (simp add: w' named_parameters_def)
  have lv: "\<forall>e\<in>set (validate_trace K vl w). leaves (fst (snd e)) = []"
  proof
    fix e assume "e \<in> set (validate_trace K vl w)"
    then have "e \<in> set (batch_trace (validate_step K) (loader_batches K vl (rng w)) ?w2)"
      by (simp add: validate_trace_def)
    moreover have "\<not> training (model ?w2)" by simp
    ultimately show "leaves (fst (snd e)) = []" by (rule batch_trace_validate_leaves [rotated])
  qed
  note B = loop_bookkeeping [OF l]
  have vl: "float_div_int (fl_sum (weighted_losses (validate_trace K vl w)))
            (length (dataset vl)) = Inr (fst (snd r))"
    using d B(1) by (simp add: validate_trace_def)
  have va: "int_div_int (matches (validate_trace K vl w)) (samples_seen (validate_trace K vl w))
            = Inr (snd (snd r))"
    using a B(2,3) by (simp add: validate_trace_def)
  have tr: "\<forall>trl best r'. train_epoch K trl vl w best = Inr r' \<longrightarrow>
             float_div_int (fl_sum (weighted_losses (train_trace K trl w)))
                 (length (dataset trl)) = Inr (epoch_loss (snd (snd r')))
           \<and> int_div_int (matches (train_trace K trl w)) (samples_seen (train_trace K trl w))
                 = Inr (epoch_accuracy (snd (snd r')))"
  proof (intro allI impI)
    fix trl best r' assume t: "train_epoch K trl vl w best = Inr r'"
    let ?w1 = "w\<lparr>model := (model w)\<lparr>training := True\<rparr>, rng := loader_seed trl (rng w)\<rparr>"
    from t obtain ws' where
      l': "batch_loop (train_step K) (loader_batches K trl (rng w)) (?w1, stats0) = Inr ws'" and
      d': "float_div_int (running_loss (snd ws')) (length (dataset trl))
             = Inr (epoch_loss (snd (snd r')))" and
      a': "int_div_int (correct_predictions (snd ws')) (total_samples (snd ws'))
             = Inr (epoch_accuracy (snd (snd r')))"
      unfolding train_epoch_def Let_def by (auto split: sum.splits)
    note B' = loop_bookkeeping [OF l']
    from d' a' B' show "float_div_int (fl_sum (weighted_losses (train_trace K trl w)))
                 (length (dataset trl)) = Inr (epoch_loss (snd (snd r')))
           \<and> int_div_int (matches (train_trace K trl w)) (samples_seen (train_trace K trl w))
                 = Inr (epoch_accuracy (snd (snd r')))"
      by (simp add: train_trace_def)
  qed
  from w' np lv vl va tr show ?thesis by simp
qed

theorem validate_changes_no_parameter_witness:
  "named_parameters (model (fst (projr (validate toy_kernels toy_world toy_val_loader))))
     = named_parameters toy_model
   \<and> optim (fst (projr (validate toy_kernels toy_world toy_val_loader))) = optim toy_world
   \<and> training (model (fst (projr (validate toy_kernels toy_world toy_val_loader)))) = False"
proof -
  have ok: "\<not> isl (validate toy_kernels toy_world toy_val_loader)"
    by code_simp
  then have run: "validate toy_kernels toy_world toy_val_loader =
      Inr (projr (validate toy_kernels toy_world toy_val_loader))"
    by simp
  have m: "model toy_world = toy_model" by (simp add: toy_world_def)
  from validate_changes_no_parameter [OF run] m show ?thesis
    by (simp add: named_parameters_def)
qed

lemma effnet_params_map_params:
  "effnet_params (map_params f m) =
     map (\<lambda>(k, p). (k, f (''effnet_model.'' @ k) p)) (effnet_params m)"
  by (simp add: map_params_def)

lemma map_params_effnet_unchanged:
  assumes "\<And>k p. (k, p) \<in> set (effnet_params m) \<Longrightarrow> f (''effnet_model.'' @ k) p = p"
  shows "effnet_params (map_params f m) = effnet_params m"
proof -
  have "map (\<lambda>(k, p). (k, f (''effnet_model.'' @ k) p)) (effnet_params m)
      = map (\<lambda>kp. kp) (effnet_params m)"
    by (rule map_cong) (use assms in auto)
  then show ?thesis by (simp add: effnet_params_map_params)
qed

lemma no_effnet_gradD:
  "no_effnet_grad m \<Longrightarrow> (k, p) \<in> set (effnet_params m) \<Longrightarrow> pgrad p = None"
  by (auto simp: no_effnet_grad_def list_all_iff)

lemma zero_grad_effnet:
  assumes "no_effnet_grad m"
  shows "effnet_params (zero_grad K opt m) = effnet_params m"
  unfolding zero_grad_def
  by (rule map_params_effnet_unchanged) (use no_effnet_gradD [OF assms] in auto)

lemma effnet_name_not_lstm: "''effnet_model.'' @ k \<notin> set lstm_param_names"
  by (simp add: lstm_param_names_def)

lemma backward_effnet:
  assumes "backward K m lstm_param_names x labels seed = Inr m'"
  shows "effnet_params m' = effnet_params m"
proof -
  from assms have m': "m' = map_params
                  (\<lambda>k p. if k \<in> set lstm_param_names
                          then (let g = grad_k K k (state_dict m) x labels seed
                                in p\<lparr>pgrad := Some (case pgrad p of None \<Rightarrow> g
                                                      | Some old \<Rightarrow> tensor_add old g)\<rparr>)
                          else p) m"
    by (auto simp: backward_def split: if_splits)
  show ?thesis unfolding m'
    by (rule map_params_effnet_unchanged) (simp add: lstm_param_names_def)
qed

lemma optimizer_step_effnet:
  assumes "no_effnet_grad m"
  shows "effnet_params (optimizer_step K opt m) = effnet_params m"
  unfolding optimizer_step_def
  by (rule map_params_effnet_unchanged) (use no_effnet_gradD [OF assms] in auto)

lemma forward_leaves_grad:
  "CombinedModel_forward K True m seed x = Inr r \<Longrightarrow> leaves (fst r) = lstm_param_names"
  unfolding CombinedModel_forward_def LSTMModel_forward_def Let_def
  by (auto simp: extract_features_def split: sum.splits list.splits)

lemma effnet_params_forward_buffers [simp]:
  "effnet_params (forward_buffers K m x) = effnet_params m"
  by (simp add: forward_buffers_def)

lemma no_effnet_grad_cong:
  "effnet_params m' = effnet_params m \<Longrightarrow> no_effnet_grad m' = no_effnet_grad m"
  by (simp add: no_effnet_grad_def)

lemma train_step_effnet:
  assumes "train_step K w b = Inr r" and "no_effnet_grad (model w)"
  shows "effnet_params (model (fst r)) = effnet_params (model w)"
    and "leaves (snd (snd r)) = lstm_param_names"
proof -
  let ?m1 = "zero_grad K (optim w) (model w)"
  from assms(1) obtain fr m3 where
    f: "CombinedModel_forward K True ?m1 (rng w) (fst b) = Inr fr" and
    bw: "backward K (fst (snd fr)) (leaves (fst fr)) (fst b) (snd b) (rng w) = Inr m3" and
    r: "model (fst r) = optimizer_step K (optim w) m3" "snd (snd r) = fst fr"
    unfolding train_step_def Let_def by (auto split: sum.splits)
  have e1: "effnet_params ?m1 = effnet_params (model w)"
    using assms(2) by (rule zero_grad_effnet)
  from forward_model [OF f] have e2: "effnet_params (fst (snd fr)) = effnet_params ?m1"
    by simp
  note lv = forward_leaves_grad [OF f]
  from bw have e3: "effnet_params m3 = effnet_params (fst (snd fr))"
    unfolding lv by (rule backward_effnet)
  from e1 e2 e3 have e: "effnet_params m3 = effnet_params (model w)" by simp
  with assms(2) have "no_effnet_grad m3" by (simp add: no_effnet_grad_def)
  from optimizer_step_effnet [OF this] e r(1)
  show "effnet_params (model (fst r)) = effnet_params (model w)" by simp
  from lv r(2) show "leaves (snd (snd r)) = lstm_param_names" by simp
qed

lemma batch_loop_train_effnet:
  assumes "no_effnet_grad (model (fst ws))"
  shows "batch_loop (train_step K) bs ws = Inr ws' \<Longrightarrow>
         effnet_params (model (fst ws')) = effnet_params (model (fst ws))"
  using assms
proof (induction bs arbitrary: ws)
  case Nil
  then show ?case by auto
next
  case (Cons b bs)
  from Cons.prems(1) obtain r st' where
    r: "train_step K (fst ws) b = Inr r" and
    rest: "batch_loop (train_step K) bs (fst r, st') = Inr ws'"
    by (auto split: sum.splits)
  from train_step_effnet(1) [OF r Cons.prems(2)]
  have e: "effnet_params (model (fst r)) = effnet_params (model (fst ws))" .
  with Cons.prems(2) have "no_effnet_grad (model (fst (fst r, st')))"
    by (simp add: no_effnet_grad_def)
  from Cons.IH [OF rest this] e show ?case by simp
qed

lemma train_epoch_effnet:
  assumes "train_epoch K trl vl w best = Inr r" and "no_effnet_grad (model w)"
  shows "effnet_params (model (fst r)) = effnet_params (model w)"
proof -
  let ?w2 = "w\<lparr>model := (model w)\<lparr>training := True\<rparr>, rng := loader_seed trl (rng w)\<rparr>"
  from assms(1) obtain ws rv where
    l: "batch_loop (train_step K) (loader_batches K trl (rng w)) (?w2, stats0) = Inr ws" and
    v: "validate K (fst ws) vl = Inr rv" and
    r: "fst r = fst (checkpoint (fst rv) best (fst (snd rv)))"
    unfolding train_epoch_def Let_def by (auto split: sum.splits)
  have "no_effnet_grad (model (fst (?w2, stats0)))"
    using assms(2) by (simp add: no_effnet_grad_def)
  from batch_loop_train_effnet [OF this l]
  have e1: "effnet_params (model (fst ws)) = effnet_params (model w)" by simp
  from v obtain ws2 where
    l2: "batch_loop (validate_step K) (loader_batches K vl (rng (fst ws)))
           ((fst ws)\<lparr>model := (model (fst ws))\<lparr>training := False\<rparr>,
                      rng := loader_seed vl (rng (fst ws))\<rparr>, stats0) = Inr ws2"
    and rv: "fst rv = fst ws2"
    unfolding validate_def Let_def by (auto split: sum.splits)
  have "\<not> training (model (fst ((fst ws)\<lparr>model := (model (fst ws))\<lparr>training := False\<rparr>,
                      rng := loader_seed vl (rng (fst ws))\<rparr>, stats0)))" by simp
  from batch_loop_validate_eval [OF this l2] rv
  have e2: "effnet_params (model (fst rv)) = effnet_params (model (fst ws))" by simp
  have "effnet_params (model (fst (checkpoint (fst rv) best (fst (snd rv)))))
      = effnet_params (model (fst rv))"
    by (simp add: checkpoint_def)
  with r e1 e2 show ?thesis by simp
qed

lemma train_epochs_effnet:
  assumes "no_effnet_grad (model w)"
  shows "train_epochs K trl vl es w best = Inr r \<Longrightarrow>
         effnet_params (model (fst r)) = effnet_params (model w)"
  using assms
proof (induction es arbitrary: w best r)
  case Nil
  then show ?case by auto
next
  case (Cons e es)
  from Cons.prems(1) obtain r1 r2 where
    r1: "train_epoch K trl vl w best = Inr r1" and
    r2: "train_epochs K trl vl es (fst r1) (fst (snd r1)) = Inr r2" and
    r: "fst r = fst r2"
    by (auto split: sum.splits)
  from train_epoch_effnet [OF r1 Cons.prems(2)]
  have e1: "effnet_params (model (fst r1)) = effnet_params (model w)" .
  with Cons.prems(2) have "no_effnet_grad (model (fst r1))" by (simp add: no_effnet_grad_def)
  from Cons.IH [OF r2 this] e1 r show ?case by simp
qed

text \<open>
  C10: from a state in which no parameter of the extractor holds a gradient (as when
  the script starts training), every training step leaves every parameter of the
  extractor, backbone and replaced head alike, as it was: the logits depend on the
  recurrent classifier's parameters only, since the features are extracted without
  gradient tracking and the head is not called, so the backward pass gives the
  extractor's parameters no gradient and Adam skips them. The same holds for a whole run
  of \<^verbatim>\<open>train\<close>. The optimizer the script builds does hold these parameters.
\<close>

theorem training_never_updates_extractor:
  assumes "no_effnet_grad (model w)"
  shows "(\<forall>b r. train_step K w b = Inr r \<longrightarrow>
            effnet_params (model (fst r)) = effnet_params (model w)
          \<and> leaves (snd (snd r)) = lstm_param_names)
       \<and> effnet_params (optimizer_step K (optim w) (model w)) = effnet_params (model w)
       \<and> (\<forall>trl vl n r. train K w trl vl n = Inr r \<longrightarrow>
            effnet_params (model (fst r)) = effnet_params (model w)
          \<and> values_of (effnet_params (model (fst r))) = values_of (effnet_params (model w))
          \<and> no_effnet_grad (model (fst r)))
       \<and> (\<forall>rate k p. (k, p) \<in> set (effnet_params (model w)) \<longrightarrow>
            ''effnet_model.'' @ k \<in> set (registered (Adam (model w) rate)))"
proof -
  have a: "\<forall>rate k p. (k, p) \<in> set (effnet_params (model w)) \<longrightarrow>
            ''effnet_model.'' @ k \<in> set (registered (Adam (model w) rate))"
    by (force simp: Adam_def named_parameters_def)
  have s: "\<forall>b r. train_step K w b = Inr r \<longrightarrow>
            effnet_params (model (fst r)) = effnet_params (model w)
          \<and> leaves (snd (snd r)) = lstm_param_names"
    using train_step_effnet [OF _ assms] by blast
  have o: "effnet_params (optimizer_step K (optim w) (model w)) = effnet_params (model w)"
    using assms by (rule optimizer_step_effnet)
  have t: "\<forall>trl vl n r. train K w trl vl n = Inr r \<longrightarrow>
            effnet_params (model (fst r)) = effnet_params (model w)
          \<and> values_of (effnet_params (model (fst r))) = values_of (effnet_params (model w))
          \<and> no_effnet_grad (model (fst r))"
  proof (intro allI impI)
    fix trl vl n r assume "train K w trl vl n = Inr r"
    then have "train_epochs K trl vl [0..<n] w PInf = Inr r" by (simp add: train_def)
    from train_epochs_effnet [OF assms this]
    have e: "effnet_params (model (fst r)) = effnet_params (model w)" .
    with assms show "effnet_params (model (fst r)) = effnet_params (model w)
          \<and> values_of (effnet_params (model (fst r))) = values_of (effnet_params (model w))
          \<and> no_effnet_grad (model (fst r))"
      by (simp add: no_effnet_grad_def)
  qed
  from s o t a show ?thesis by blast
qed

theorem training_never_updates_extractor_witness:
  "no_effnet_grad (model toy_world)
   \<and> effnet_params (model (fst (projr
        (train toy_kernels toy_world toy_train_loader toy_val_loader 2))))
       = effnet_params toy_model
   \<and> ''effnet_model._conv_stem.weight'' \<in> set (registered (optim toy_world))"
proof -
  have ng: "no_effnet_grad (model toy_world)"
    by (simp add: no_effnet_grad_def toy_world_def toy_model_def toy_param_def)
  have ok: "\<not> isl (train toy_kernels toy_world toy_train_loader toy_val_loader 2)"
    by code_simp
  then have run: "train toy_kernels toy_world toy_train_loader toy_val_loader 2 =
      Inr (projr (train toy_kernels toy_world toy_train_loader toy_val_loader 2))"
    by simp
  have m: "model toy_world = toy_model" by (simp add: toy_world_def)
  have reg: "''effnet_model._conv_stem.weight'' \<in> set (registered (optim toy_world))"
    by (simp add: toy_world_def Adam_def named_parameters_def toy_model_def)
  note T = training_never_updates_extractor [OF ng, of toy_kernels, THEN conjunct2, THEN conjunct2,
              THEN conjunct1, rule_format, OF run]
  from T ng m reg show ?thesis by simp
qed

end
